theory Spec2Isabelle
  imports Complex_Main "HOL-Library.AList"
begin

section \<open>Python values and failures\<close>

text \<open>
  The tableau of the repository is a Python list of lists whose entries are
  \<open>fractions.Fraction\<close> values (and a few plain \<open>int\<close> values 0, 1 and -1 that mix
  exactly with fractions), so a tableau is a \<open>rat list list\<close>. Every exception the
  source can raise is a value: the two explicit \<open>ValueError\<close>s keep their message, the
  implicit ones (a bad index, a division by zero, a call with missing arguments, a
  failed unpacking, a literal that does not parse, a float conversion that overflows)
  are constructors of their own.
\<close>

datatype error =
    ValueError string
  | TypeError
  | IndexError
  | ZeroDivisionError
  | OverflowError
  | ParseError
  | UnpackError

type_synonym 'a result = "error + 'a"

type_synonym table = "rat list list"

definition ebind :: "'a result \<Rightarrow> ('a \<Rightarrow> 'b result) \<Rightarrow> 'b result" where
  "ebind m f = (case m of Inl e \<Rightarrow> Inl e | Inr x \<Rightarrow> f x)"

fun sequence_e :: "'a result list \<Rightarrow> 'a list result" where
  "sequence_e [] = Inr []"
| "sequence_e (m # ms) =
     (case m of Inl e \<Rightarrow> Inl e
      | Inr x \<Rightarrow> (case sequence_e ms of Inl e \<Rightarrow> Inl e | Inr xs \<Rightarrow> Inr (x # xs)))"

text \<open>A tableau is rectangular when every row has the length of row 0.\<close>

definition rect :: "table \<Rightarrow> bool" where
  "rect t = list_all (\<lambda>r. length r = length (hd t)) t"

section \<open>FunctionalApproach/table\_tools.py\<close>

text \<open>\<open>sum_rows\<close> reads \<open>row2[i]\<close> for every index of \<open>row1\<close>.\<close>

definition sum_rows :: "rat list \<Rightarrow> rat list \<Rightarrow> rat list result" where
  "sum_rows row1 row2 =
     (if length row2 < length row1 then Inl IndexError
      else Inr (map2 (\<lambda>a b. a + b) row1 row2))"

definition multiply_const_row :: "rat \<Rightarrow> rat list \<Rightarrow> rat list" where
  "multiply_const_row const row = map (\<lambda>i. const * i) row"

section \<open>FunctionalApproach/simplex\_module.py: the pivot cycle\<close>

text \<open>\<open>F = simplex_table[0]\<close> is the whole objective row, its last entry included.\<close>

definition check_condition :: "table \<Rightarrow> bool result" where
  "check_condition simplex_table =
     (case simplex_table of
        [] \<Rightarrow> Inl IndexError
      | F # _ \<Rightarrow> Inr (length (filter (\<lambda>x. x \<le> 0) F) = length F))"

definition find_key_column :: "table \<Rightarrow> nat result" where
  "find_key_column simplex_table =
     (case simplex_table of
        [] \<Rightarrow> Inl IndexError
      | F # _ \<Rightarrow>
          Inr (fold (\<lambda>i key_columns. if \<bar>F ! i\<bar> \<ge> \<bar>F ! key_columns\<bar> then i else key_columns)
                 [0 ..< length F - 1] 0))"

text \<open>
  The loop of \<open>find_key_row\<close>: \<open>min_val\<close> starts at \<open>float("inf")\<close>, which is \<open>None\<close>
  here; a ratio is a fraction, so it is below \<open>inf\<close> always.
\<close>

fun find_key_row_loop ::
  "table \<Rightarrow> nat \<Rightarrow> nat list \<Rightarrow> rat option \<times> nat \<Rightarrow> (rat option \<times> nat) result" where
  "find_key_row_loop t key_column [] st = Inr st"
| "find_key_row_loop t key_column (i # rest) (min_val, key_row) =
     (if key_column < length (t ! i) then
        (if t ! i ! key_column > 0 then
           (let val = last (t ! i) / (t ! i ! key_column) in
            if (case min_val of None \<Rightarrow> True | Some m \<Rightarrow> val < m)
            then find_key_row_loop t key_column rest (Some val, i)
            else find_key_row_loop t key_column rest (min_val, key_row))
         else find_key_row_loop t key_column rest (min_val, key_row))
      else Inl IndexError)"

text \<open>
  The result is the key row together with a flag telling whether
  \<open>warn("Dengeneracy")\<close> was issued; the warning does not change the control flow.
\<close>

definition find_key_row :: "table \<Rightarrow> nat \<Rightarrow> (nat \<times> bool) result" where
  "find_key_row simplex_table key_column =
     (case find_key_row_loop simplex_table key_column [1 ..< length simplex_table] (None, 0) of
        Inl e \<Rightarrow> Inl e
      | Inr (min_val, key_row) \<Rightarrow>
          (case min_val of
             None \<Rightarrow> Inl (ValueError ''Unbounded solution'')
           | Some m \<Rightarrow> Inr (key_row, m = 0)))"

text \<open>
  \<open>normalize_to_pivot\<close> divides the first \<open>len(simplex_table[0])\<close> entries of the key
  row; the first division already fails when the pivot is zero.
\<close>

definition normalize_to_pivot :: "table \<Rightarrow> nat \<Rightarrow> rat \<Rightarrow> table result" where
  "normalize_to_pivot simplex_table key_row pivot =
     (case simplex_table of
        [] \<Rightarrow> Inl IndexError
      | F # _ \<Rightarrow>
          (let n = length F in
           if n = 0 then Inr simplex_table
           else if \<not> key_row < length simplex_table then Inl IndexError
           else if simplex_table ! key_row = [] then Inl IndexError
           else if pivot = 0 then Inl ZeroDivisionError
           else if length (simplex_table ! key_row) < n then Inl IndexError
           else Inr (simplex_table[key_row :=
                  map (\<lambda>x. x / pivot) (take n (simplex_table ! key_row))
                  @ drop n (simplex_table ! key_row)])))"

text \<open>One row of \<open>make_key_column_zero\<close>: the factor is read once, before the inner loop.\<close>

definition zero_row :: "nat \<Rightarrow> rat list \<Rightarrow> nat \<Rightarrow> rat list \<Rightarrow> rat list result" where
  "zero_row num_columns krow key_column row =
     (if \<not> key_column < length row then Inl IndexError
      else if length row < num_columns \<or> length krow < num_columns then Inl IndexError
      else Inr (map2 (\<lambda>a b. a - b * (row ! key_column)) (take num_columns row) (take num_columns krow)
                @ drop num_columns row))"

definition make_key_column_zero :: "table \<Rightarrow> nat \<Rightarrow> nat \<Rightarrow> table result" where
  "make_key_column_zero simplex_table key_column key_row =
     (case simplex_table of
        [] \<Rightarrow> Inl IndexError
      | F # _ \<Rightarrow>
          (let krow = (if key_row < length simplex_table then simplex_table ! key_row else [])
           in sequence_e
                (map (\<lambda>(i, row). if i \<noteq> key_row then zero_row (length F) krow key_column row
                                  else Inr row)
                   (enumerate 0 simplex_table))))"

definition simplex_step ::
  "table \<Rightarrow> nat list \<Rightarrow> nat \<Rightarrow> nat \<Rightarrow> (table \<times> nat list) result" where
  "simplex_step simplex_table basic_vars key_column key_row =
     (if \<not> key_row < length basic_vars then Inl IndexError
      else if \<not> key_row < length simplex_table then Inl IndexError
      else if \<not> key_column < length (simplex_table ! key_row) then Inl IndexError
      else
        ebind (normalize_to_pivot simplex_table key_row (simplex_table ! key_row ! key_column))
          (\<lambda>t1. ebind (make_key_column_zero t1 key_column key_row)
            (\<lambda>t2. Inr (t2, basic_vars[key_row := key_column]))))"

section \<open>Python strings and number literals\<close>

text \<open>
  \<open>str.split(sep)\<close> with a one-character separator: every occurrence of the separator
  ends a field, so the result has one field more than there are separators.
\<close>

fun split_on :: "char \<Rightarrow> string \<Rightarrow> string list" where
  "split_on c [] = [[]]"
| "split_on c (x # xs) =
     (let r = split_on c xs in if x = c then [] # r else (x # hd r) # tl r)"

definition is_space :: "char \<Rightarrow> bool" where
  "is_space c = (let k = (of_char c :: nat) in (9 \<le> k \<and> k \<le> 13) \<or> (28 \<le> k \<and> k \<le> 32))"

text \<open>\<open>str.split()\<close> without argument: runs of whitespace separate, no empty field.\<close>

fun split_ws_acc :: "string \<Rightarrow> string \<Rightarrow> string list" where
  "split_ws_acc acc [] = (if acc = [] then [] else [rev acc])"
| "split_ws_acc acc (x # xs) =
     (if is_space x then (if acc = [] then split_ws_acc [] xs else rev acc # split_ws_acc [] xs)
      else split_ws_acc (x # acc) xs)"

definition split_ws :: "string \<Rightarrow> string list" where
  "split_ws s = split_ws_acc [] s"

text \<open>The substring test \<open>sub in s\<close>.\<close>

fun is_in :: "string \<Rightarrow> string \<Rightarrow> bool" where
  "is_in sub [] = (sub = [])"
| "is_in sub (x # xs) = (take (length sub) (x # xs) = sub \<or> is_in sub xs)"

definition is_digit :: "char \<Rightarrow> bool" where
  "is_digit c = (let k = (of_char c :: nat) in 48 \<le> k \<and> k \<le> 57)"

definition digits_val :: "string \<Rightarrow> int" where
  "digits_val ds = foldl (\<lambda>acc c. 10 * acc + (int (of_char c) - 48)) 0 ds"

text \<open>
  The core of a decimal literal: an optional sign and one or more ASCII digits, at
  most 4300 of them (the limit of the conversion of a string to an \<open>int\<close>). Anything
  else is the \<open>ValueError\<close> of a literal that does not parse.
\<close>

definition parse_int :: "string \<Rightarrow> int result" where
  "parse_int s =
     (let (neg, ds) = (case s of
                         [] \<Rightarrow> (False, [])
                       | c # cs \<Rightarrow> if c = CHR ''-'' then (True, cs)
                                   else if c = CHR ''+'' then (False, cs)
                                   else (False, s))
      in if ds \<noteq> [] \<and> list_all is_digit ds \<and> int (length ds) \<le> 4300
         then Inr (if neg then - digits_val ds else digits_val ds)
         else Inl ParseError)"

text \<open>\<open>int(s)\<close> of a string: whitespace on both sides is dropped first.\<close>

definition py_int :: "string \<Rightarrow> int result" where
  "py_int s = parse_int (rev (dropWhile is_space (rev (dropWhile is_space s))))"

text \<open>
  \<open>Fraction(s + "/1")\<close>: the pattern of \<open>Fraction\<close> allows whitespace at the start of
  the string, then the sign and the digits of the numerator, directly followed by the
  slash. (From Python 3.12 on whitespace is allowed before the slash as well; the
  model follows the older pattern.)
\<close>

definition fraction_over_one :: "string \<Rightarrow> rat result" where
  "fraction_over_one s = ebind (parse_int (dropWhile is_space s)) (\<lambda>k. Inr (of_int k))"

text \<open>
  Item assignment \<open>xs[k] = v\<close> with a Python integer index: a negative index counts
  from the end, anything outside \<open>-len(xs) \<le> k < len(xs)\<close> is an \<open>IndexError\<close>.
\<close>

definition py_set :: "'a list \<Rightarrow> int \<Rightarrow> 'a \<Rightarrow> 'a list result" where
  "py_set xs k v =
     (let n = int (length xs) in
      if 0 \<le> k \<and> k < n then Inr (xs[nat k := v])
      else if - n \<le> k \<and> k < 0 then Inr (xs[nat (n + k) := v])
      else Inl IndexError)"

definition py_get :: "'a list \<Rightarrow> int \<Rightarrow> 'a result" where
  "py_get xs k =
     (let n = int (length xs) in
      if 0 \<le> k \<and> k < n then Inr (xs ! nat k)
      else if - n \<le> k \<and> k < 0 then Inr (xs ! nat (n + k))
      else Inl IndexError)"

definition set_nat :: "'a list \<Rightarrow> nat \<Rightarrow> 'a \<Rightarrow> 'a list result" where
  "set_nat xs k v = (if k < length xs then Inr (xs[k := v]) else Inl IndexError)"

section \<open>FunctionalApproach/utils.py\<close>

text \<open>The first loop of \<open>construct_simplex_table\<close>: the two counters.\<close>

fun count_vars :: "string list \<Rightarrow> nat \<times> nat \<Rightarrow> nat \<times> nat" where
  "count_vars [] c = c"
| "count_vars (expression # rest) (num_s_vars, num_r_vars) =
     (if is_in ''>='' expression then count_vars rest (num_s_vars + 1, num_r_vars)
      else if is_in ''<='' expression then count_vars rest (num_s_vars + 1, num_r_vars + 1)
      else if is_in ''='' expression then count_vars rest (num_s_vars, num_r_vars + 1)
      else count_vars rest (num_s_vars, num_r_vars))"

text \<open>
  The state of the filling loop while row \<open>i\<close> is filled: the row itself, \<open>s_index\<close>,
  \<open>r_index\<close> and \<open>r_rows\<close>.
\<close>

type_synonym fill_state = "rat list \<times> nat \<times> nat \<times> nat list"

text \<open>
  The body of the token loop without its last statement. \<open>constraint[j - 1]\<close> at
  \<open>j = 0\<close> is the last token. In the item assignment the right-hand side is evaluated
  before \<open>int(index)\<close>.
\<close>

definition fill_token :: "string list \<Rightarrow> nat \<Rightarrow> nat \<Rightarrow> fill_state \<Rightarrow> fill_state result" where
  "fill_token constraint i j st =
     (case st of (row, s_index, r_index, r_rows) \<Rightarrow>
      (let tok = constraint ! j;
           prev = constraint ! (if j = 0 then length constraint - 1 else j - 1)
       in if CHR ''_'' \<in> set tok then
            (case split_on CHR ''_'' tok of
               [coeff, index] \<Rightarrow>
                 ebind (fraction_over_one
                          (if prev = ''-'' then ''-'' @ butlast coeff else butlast coeff))
                   (\<lambda>v. ebind (py_int index)
                     (\<lambda>k. ebind (py_set row (k - 1) v)
                       (\<lambda>row'. Inr (row', s_index, r_index, r_rows))))
             | _ \<Rightarrow> Inl UnpackError)
          else if tok = ''<='' then
            ebind (set_nat row s_index 1)
              (\<lambda>row'. Inr (row', s_index + 1, r_index, r_rows))
          else if tok = ''>='' then
            ebind (set_nat row s_index (- 1))
              (\<lambda>row'. ebind (set_nat row' r_index 1)
                (\<lambda>row''. Inr (row'', s_index + 1, r_index + 1, r_rows @ [i])))
          else if tok = ''='' then
            ebind (set_nat row r_index 1)
              (\<lambda>row'. Inr (row', s_index, r_index + 1, r_rows @ [i]))
          else Inr st))"

text \<open>\<open>coeff_matrix[i][-1] = Fraction(constraint[-1] + "/1")\<close>\<close>

definition fill_rhs :: "string list \<Rightarrow> fill_state \<Rightarrow> fill_state result" where
  "fill_rhs constraint st =
     (case st of (row, s_index, r_index, r_rows) \<Rightarrow>
        ebind (fraction_over_one (last constraint))
          (\<lambda>v. ebind (py_set row (- 1) v)
            (\<lambda>row'. Inr (row', s_index, r_index, r_rows))))"

text \<open>In the functional version the right-hand side is written at the end of every pass.\<close>

fun fill_tokens :: "string list \<Rightarrow> nat \<Rightarrow> nat list \<Rightarrow> fill_state \<Rightarrow> fill_state result" where
  "fill_tokens constraint i [] st = Inr st"
| "fill_tokens constraint i (j # js) st =
     ebind (fill_token constraint i j st)
       (\<lambda>st1. ebind (fill_rhs constraint st1) (fill_tokens constraint i js))"

text \<open>The loop over the constraints; the rows already filled are collected in order.\<close>

fun fill_rows ::
  "nat \<Rightarrow> string list \<Rightarrow> nat \<Rightarrow> nat \<times> nat \<times> nat list \<Rightarrow> table \<Rightarrow> (table \<times> nat list) result" where
  "fill_rows width [] i (s_index, r_index, r_rows) done_rows = Inr (done_rows, r_rows)"
| "fill_rows width (c # cs) i (s_index, r_index, r_rows) done_rows =
     (let constraint = split_on CHR '' '' c in
      ebind (fill_tokens constraint i [0 ..< length constraint]
               (replicate width 0, s_index, r_index, r_rows))
        (\<lambda>(row, s_index', r_index', r_rows').
           fill_rows width cs (i + 1) (s_index', r_index', r_rows') (done_rows @ [row])))"

definition construct_simplex_table ::
  "string list \<Rightarrow> nat \<Rightarrow> (table \<times> nat list \<times> nat \<times> nat) result" where
  "construct_simplex_table constraints num_vars =
     (let (num_s_vars, num_r_vars) = count_vars constraints (0, 0);
          total_vars = num_vars + num_s_vars + num_r_vars
      in ebind (fill_rows (total_vars + 1) constraints 1
                  (num_vars, num_vars + num_s_vars, []) [replicate (total_vars + 1) 0])
           (\<lambda>(coeff_matrix, r_rows). Inr (coeff_matrix, r_rows, num_s_vars, num_r_vars)))"

text \<open>One token of the objective: the entry is set, then negated for a maximisation.\<close>

definition objective_token :: "string list \<Rightarrow> string \<Rightarrow> nat \<Rightarrow> rat list \<Rightarrow> rat list result" where
  "objective_token coeffs objective i row0 =
     (let tok = coeffs ! i;
          prev = coeffs ! (if i = 0 then length coeffs - 1 else i - 1)
      in if CHR ''_'' \<in> set tok then
           (case split_on CHR ''_'' tok of
              [coeff, index] \<Rightarrow>
                ebind (py_int (butlast coeff))
                  (\<lambda>c. ebind (py_int index)
                    (\<lambda>k. ebind (py_set row0 (k - 1) (if prev = ''-'' then of_int c else of_int (- c)))
                      (\<lambda>row1. if is_in ''max'' objective
                               then ebind (py_get row1 (k - 1))
                                      (\<lambda>x. py_set row1 (k - 1) (x * (- 1)))
                               else Inr row1)))
            | _ \<Rightarrow> Inl UnpackError)
         else Inr row0)"

fun objective_tokens :: "string list \<Rightarrow> string \<Rightarrow> nat list \<Rightarrow> rat list \<Rightarrow> rat list result" where
  "objective_tokens coeffs objective [] row0 = Inr row0"
| "objective_tokens coeffs objective (i # rest) row0 =
     ebind (objective_token coeffs objective i row0) (objective_tokens coeffs objective rest)"

text \<open>
  Without a row 0 the first token with an underscore fails: at the unpacking, or at
  the literal of the coefficient, or else at \<open>simplex_table[0]\<close>.
\<close>

fun objective_no_row :: "string list \<Rightarrow> table result" where
  "objective_no_row [] = Inr []"
| "objective_no_row (tok # rest) =
     (if CHR ''_'' \<in> set tok then
        (case split_on CHR ''_'' tok of
           [coeff, index] \<Rightarrow> ebind (py_int (butlast coeff)) (\<lambda>c. Inl IndexError)
         | _ \<Rightarrow> Inl UnpackError)
      else objective_no_row rest)"

definition update_objective_function :: "table \<Rightarrow> string \<Rightarrow> string \<Rightarrow> table result" where
  "update_objective_function simplex_table objective_function objective =
     (let coeffs = split_ws objective_function in
      case simplex_table of
        [] \<Rightarrow> objective_no_row coeffs
      | F # rest \<Rightarrow>
          ebind (objective_tokens coeffs objective [0 ..< length coeffs] F)
            (\<lambda>F'. Inr (F' # rest)))"

text \<open>
  The solution dictionary maps the label \<open>'x_' + str(k)\<close> to a value; the label is
  represented by its number \<open>k\<close>. Assigning to a key keeps the key's position when it
  is present and appends it otherwise, as \<open>AList.update\<close> does.
\<close>

type_synonym solution = "(nat \<times> rat) list"

fun solution_basic :: "table \<Rightarrow> nat \<Rightarrow> (nat \<times> nat) list \<Rightarrow> solution \<Rightarrow> solution result" where
  "solution_basic t num_vars [] sol = Inr sol"
| "solution_basic t num_vars ((i, var) # rest) sol =
     (if var < num_vars then
        (if i + 1 < length t \<and> t ! (i + 1) \<noteq> []
         then solution_basic t num_vars rest (AList.update (var + 1) (last (t ! (i + 1))) sol)
         else Inl IndexError)
      else solution_basic t num_vars rest sol)"

definition create_solution :: "table \<Rightarrow> nat list \<Rightarrow> nat \<Rightarrow> solution result" where
  "create_solution simplex_table basic_vars num_vars =
     ebind (solution_basic simplex_table num_vars (enumerate 0 (tl basic_vars)) [])
       (\<lambda>sol. Inr (fold (\<lambda>i s. if i \<notin> set (tl basic_vars) then AList.update (i + 1) 0 s else s)
                      [0 ..< num_vars] sol))"

section \<open>FunctionalApproach/simplex\_module.py: the two phases\<close>

text \<open>
  \<open>delete_r_vars\<close> deletes index \<open>non_r_length - 1\<close> of a row until the row has
  \<open>non_r_length\<close> entries: the last entry stays. A row that is too short makes the
  first \<open>del\<close> fail.
\<close>

definition delete_r_row :: "nat \<Rightarrow> rat list \<Rightarrow> rat list result" where
  "delete_r_row non_r_length row =
     (if length row = non_r_length then Inr row
      else if length row < non_r_length then Inl IndexError
      else Inr (take (non_r_length - 1) row @ [last row]))"

definition delete_r_vars :: "table \<Rightarrow> nat \<Rightarrow> nat \<Rightarrow> table result" where
  "delete_r_vars simplex_table num_vars num_s_vars =
     sequence_e (map (delete_r_row (num_vars + num_s_vars + 1)) simplex_table)"

text \<open>The loop of \<open>phase1\<close> over \<open>r_rows\<close>; the state is row 0, \<open>basic_vars\<close>, \<open>r_index\<close>.\<close>

fun phase1_r_rows ::
  "table \<Rightarrow> nat list \<Rightarrow> rat list \<times> nat list \<times> nat \<Rightarrow> (rat list \<times> nat list \<times> nat) result" where
  "phase1_r_rows t [] st = Inr st"
| "phase1_r_rows t (i # rest) (row0, basic_vars, r_index) =
     (if \<not> i < length t then Inl IndexError
      else ebind (sum_rows row0 (if i = 0 then row0 else t ! i))
        (\<lambda>row0'. ebind (set_nat basic_vars i r_index)
          (\<lambda>basic_vars'. phase1_r_rows t rest (row0', basic_vars', r_index + 1))))"

fun phase1_s_vars :: "nat list \<Rightarrow> nat list \<times> nat \<Rightarrow> nat list \<times> nat" where
  "phase1_s_vars [] st = st"
| "phase1_s_vars (i # rest) (basic_vars, s_index) =
     (if basic_vars ! i = 0 then phase1_s_vars rest (basic_vars[i := s_index], s_index + 1)
      else phase1_s_vars rest (basic_vars, s_index))"

text \<open>
  In \<open>phase1\<close> the body of the pivot loop begins with \<open>find_key_column()\<close>, a call
  without the one argument the function requires: the first pass through the body
  raises \<open>TypeError\<close>. So the loop either is not entered or fails.
\<close>

definition phase1 ::
  "table \<Rightarrow> nat list \<Rightarrow> nat list \<Rightarrow> nat \<Rightarrow> nat \<Rightarrow> (table \<times> nat list \<times> table list) result" where
  "phase1 simplex_table basic_vars r_rows num_vars num_s_vars =
     (case simplex_table of
        [] \<Rightarrow> Inl IndexError
      | F # rest \<Rightarrow>
          (let r_index = num_vars + num_s_vars;
               F1 = fold (\<lambda>i row. row[i := - 1]) [r_index ..< length F - 1] F
           in ebind (phase1_r_rows (F1 # rest) r_rows (F1, basic_vars, r_index))
                (\<lambda>(F2, basic_vars1, _).
                   (let (basic_vars2, _) =
                          phase1_s_vars [1 ..< length basic_vars1] (basic_vars1, num_vars);
                        t2 = F2 # rest
                    in ebind (check_condition t2)
                         (\<lambda>c. if c then Inr (t2, basic_vars2, []) else Inl TypeError)))))"

text \<open>The history dictionaries: the labels are the source's strings, in insertion order.\<close>

datatype label =
    Initial_Simplex_method
  | Simplex_method_step nat
  | Initial_Gomory_method
  | Gomory_method_step nat

type_synonym history = "(label \<times> table) list"
type_synonym bv_history = "(label \<times> nat list) list"

text \<open>
  The re-normalisation of the objective row before phase 2. \<open>row\<close> counts the entries
  of \<open>basic_vars[1:]\<close> from 0 and the source multiplies \<open>simplex_table[row]\<close>.
\<close>

fun renormalize :: "(nat \<times> nat) list \<Rightarrow> table \<Rightarrow> table result" where
  "renormalize [] t = Inr t"
| "renormalize ((row, column) # rest) t =
     (case t of
        [] \<Rightarrow> Inl IndexError
      | F # others \<Rightarrow>
          (if \<not> column < length F then Inl IndexError
           else if F ! column \<noteq> 0 then
             (if \<not> row < length t then Inl IndexError
              else ebind (sum_rows F (multiply_const_row (- (F ! column)) (t ! row)))
                     (\<lambda>F'. renormalize rest (F' # others)))
           else renormalize rest t))"

text \<open>
  The pivot loop of phase 2. The source's \<open>while\<close> has no bound, so the model takes
  fuel: \<open>None\<close> means that the fuel did not suffice.
\<close>

fun phase2_loop ::
  "nat \<Rightarrow> table \<Rightarrow> nat list \<Rightarrow> history \<Rightarrow> bv_history \<Rightarrow> nat
     \<Rightarrow> (table \<times> nat list \<times> history \<times> bv_history) result option" where
  "phase2_loop 0 t basic_vars h bh step = None"
| "phase2_loop (Suc fuel) t basic_vars h bh step =
     (case check_condition t of
        Inl e \<Rightarrow> Some (Inl e)
      | Inr True \<Rightarrow> Some (Inr (t, basic_vars, h, bh))
      | Inr False \<Rightarrow>
          (case ebind (find_key_column t)
                  (\<lambda>key_column. ebind (find_key_row t key_column)
                    (\<lambda>(key_row, _). simplex_step t basic_vars key_column key_row)) of
             Inl e \<Rightarrow> Some (Inl e)
           | Inr (t', basic_vars') \<Rightarrow>
               phase2_loop fuel t' basic_vars'
                 (h @ [(Simplex_method_step step, t')])
                 (bh @ [(Simplex_method_step step, basic_vars')]) (step + 1)))"

text \<open>The part of \<open>simplex_solve\<close> before the pivot loop of phase 2.\<close>

definition simplex_prepare ::
  "nat \<Rightarrow> string list \<Rightarrow> string \<times> string \<Rightarrow> (table \<times> nat list) result" where
  "simplex_prepare num_vars constraints objective_function =
     ebind (construct_simplex_table constraints num_vars)
       (\<lambda>(t0, r_rows, num_s_vars, num_r_vars).
          ebind (phase1 t0 (replicate (length t0) 0) r_rows num_vars num_s_vars)
            (\<lambda>(t1, basic_vars, _).
               if list_ex (\<lambda>i. i > num_r_vars + num_s_vars) basic_vars
               then Inl (ValueError ''Infeasible solution'')
               else ebind (delete_r_vars t1 num_vars num_s_vars)
                 (\<lambda>t2. ebind (update_objective_function t2 (snd objective_function)
                                 (fst objective_function))
                   (\<lambda>t3. ebind (renormalize (enumerate 0 (tl basic_vars)) t3)
                     (\<lambda>t4. Inr (t4, basic_vars))))))"

type_synonym solve_result = "rat \<times> solution \<times> history \<times> bv_history"

definition simplex_finish ::
  "nat \<Rightarrow> (table \<times> nat list \<times> history \<times> bv_history) \<Rightarrow> solve_result result" where
  "simplex_finish num_vars r =
     (case r of (t, basic_vars, h, bh) \<Rightarrow>
        (case t of
           [] \<Rightarrow> Inl IndexError
         | F # _ \<Rightarrow>
             if F = [] then Inl IndexError
             else ebind (create_solution t basic_vars num_vars)
                    (\<lambda>optimal_plane. Inr (last F, optimal_plane, h, bh))))"

definition simplex_solve ::
  "nat \<Rightarrow> nat \<Rightarrow> string list \<Rightarrow> string \<times> string \<Rightarrow> solve_result result option" where
  "simplex_solve fuel num_vars constraints objective_function =
     (case simplex_prepare num_vars constraints objective_function of
        Inl e \<Rightarrow> Some (Inl e)
      | Inr (t, basic_vars) \<Rightarrow>
          (case phase2_loop fuel t basic_vars
                  [(Initial_Simplex_method, t)] [(Initial_Simplex_method, basic_vars)] 1 of
             None \<Rightarrow> None
           | Some (Inl e) \<Rightarrow> Some (Inl e)
           | Some (Inr r) \<Rightarrow> Some (simplex_finish num_vars r)))"

section \<open>Conversion of a fraction to a Python float\<close>

text \<open>
  \<open>float(x)\<close> of a fraction (or an int) is the binary64 number nearest to it, ties
  going to the even significand. With \<open>2 ^ e \<le> \<bar>x\<bar> < 2 ^ (e + 1)\<close> the doubles around
  \<open>\<bar>x\<bar>\<close> are the multiples of \<open>2 ^ (e - 52)\<close> (of \<open>2 ^ - 1074\<close> in the subnormal
  range), and the conversion raises \<open>OverflowError\<close> when the rounded value reaches
  \<open>2 ^ 1024\<close>, that is when \<open>e > 1023\<close>, or \<open>e = 1023\<close> and the significand rounds up to
  \<open>2 ^ 53\<close>. The double is represented by its exact rational value.
\<close>

fun ilog2 :: "nat \<Rightarrow> nat" where
  "ilog2 n = (if n < 2 then 0 else Suc (ilog2 (n div 2)))"

declare ilog2.simps [simp del]

definition pow2 :: "int \<Rightarrow> rat" where
  "pow2 k = (if k \<ge> 0 then 2 ^ nat k else 1 / 2 ^ nat (- k))"

definition round_half_even :: "rat \<Rightarrow> int" where
  "round_half_even m =
     (let f = \<lfloor>m\<rfloor>; r = m - of_int f
      in if r < 1 / 2 then f else if r > 1 / 2 then f + 1
         else if even f then f else f + 1)"

definition py_float :: "rat \<Rightarrow> rat result" where
  "py_float x =
     (if x = 0 then Inr 0
      else (let a = \<bar>x\<bar>;
                d = (case quotient_of a of (p, q) \<Rightarrow> int (ilog2 (nat p)) - int (ilog2 (nat q)));
                e = (if pow2 d \<le> a then d else d - 1);
                s = max e (- 1022) - 52;
                n = round_half_even (a / pow2 s)
            in if e > 1023 \<or> (e = 1023 \<and> n = 2 ^ 53) then Inl OverflowError
               else Inr (sgn x * (of_int n * pow2 s))))"

text \<open>\<open>abs(float(x)) % 1\<close>; the remainder of a non-negative double by 1 is exact.\<close>

definition fractional_part :: "rat \<Rightarrow> rat result" where
  "fractional_part x = ebind (py_float x) (\<lambda>f. Inr (\<bar>f\<bar> - of_int \<lfloor>\<bar>f\<bar>\<rfloor>))"

section \<open>FunctionalApproach/gomory\_module.py\<close>

definition is_integer :: "rat \<Rightarrow> bool" where
  "is_integer x = (snd (quotient_of x) = 1)"

definition check_integer_condition :: "table \<Rightarrow> bool result" where
  "check_integer_condition simplex_table =
     (if list_ex (\<lambda>x. x = []) (tl simplex_table) then Inl IndexError
      else (let B = map last (tl simplex_table)
            in Inr (length (filter (\<lambda>x. x \<ge> 0) B) = length B
                    \<and> length (filter is_integer B) = length B)))"

fun find_max_fractional_loop :: "table \<Rightarrow> nat list \<Rightarrow> nat \<Rightarrow> nat result" where
  "find_max_fractional_loop t [] max_i = Inr max_i"
| "find_max_fractional_loop t (i # rest) max_i =
     (if t ! i = [] then Inl IndexError
      else ebind (fractional_part (last (t ! i)))
        (\<lambda>curr. if t ! max_i = [] then Inl IndexError
                 else ebind (fractional_part (last (t ! max_i)))
                   (\<lambda>mx. find_max_fractional_loop t rest (if curr > mx then i else max_i))))"

definition find_max_fractional_index :: "table \<Rightarrow> nat result" where
  "find_max_fractional_index simplex_table =
     find_max_fractional_loop simplex_table [1 ..< length simplex_table] 1"

text \<open>\<open>xs.insert(-1, v)\<close>: before the last entry, or at the front of an empty list.\<close>

definition insert_before_last :: "'a \<Rightarrow> 'a list \<Rightarrow> 'a list" where
  "insert_before_last v xs = (if xs = [] then [v] else butlast xs @ [v, last xs])"

text \<open>\<open>get_fraction(-(coeff.numerator % coeff.denominator), coeff.denominator)\<close>\<close>

definition cut_entry :: "rat \<Rightarrow> rat" where
  "cut_entry coeff =
     (case quotient_of coeff of (num, den) \<Rightarrow> of_int (- (num mod den)) / of_int den)"

fun clip_row :: "(nat \<times> rat) list \<Rightarrow> rat list \<Rightarrow> rat list result" where
  "clip_row [] new_row = Inr new_row"
| "clip_row ((j, coeff) # rest) new_row =
     (if coeff \<noteq> 0 then ebind (set_nat new_row j (cut_entry coeff)) (clip_row rest)
      else clip_row rest new_row)"

text \<open>
  \<open>add_clipping\<close> with the source row given. The entries of the source row are read
  while the new row is written; each entry is read before the same position of the new
  row is written, so the reads see the rows as they were after the insertions.
\<close>

definition add_clipping_at :: "nat \<Rightarrow> table \<Rightarrow> nat list \<Rightarrow> (table \<times> nat list) result" where
  "add_clipping_at index simplex_table basic_vars =
     (case simplex_table of
        [] \<Rightarrow> Inl IndexError
      | F # _ \<Rightarrow>
          (let t1 = map (insert_before_last 0) simplex_table
                    @ [insert_before_last 1 (replicate (length F) 0)]
           in if \<not> index < length t1 then Inl IndexError
              else ebind (clip_row (enumerate 0 (t1 ! index)) (last t1))
                     (\<lambda>new_row. Inr (butlast t1 @ [new_row],
                                      basic_vars @ [length t1 - 1]))))"

definition add_clipping :: "table \<Rightarrow> nat list \<Rightarrow> (table \<times> nat list) result" where
  "add_clipping simplex_table basic_vars =
     ebind (find_max_fractional_index simplex_table)
       (\<lambda>index. add_clipping_at index simplex_table basic_vars)"

definition get_key_row :: "table \<Rightarrow> nat result" where
  "get_key_row simplex_table =
     (if list_ex (\<lambda>x. x = []) (tl simplex_table) then Inl IndexError
      else (let beta = map (\<lambda>x. if last x < 0 then last x else 0) (tl simplex_table)
            in Inr (fold (\<lambda>b key_row. if \<bar>beta ! b\<bar> \<ge> \<bar>beta ! key_row\<bar> then b else key_row)
                      [0 ..< length beta] 0 + 1)))"

text \<open>\<open>float('inf')\<close> is \<open>None\<close>; \<open>le_inf\<close> is \<open>\<le>\<close> on fractions and \<open>inf\<close>.\<close>

definition le_inf :: "rat option \<Rightarrow> rat option \<Rightarrow> bool" where
  "le_inf a b = (case b of None \<Rightarrow> True
                 | Some y \<Rightarrow> (case a of None \<Rightarrow> False | Some x \<Rightarrow> x \<le> y))"

definition get_key_column :: "table \<Rightarrow> nat \<Rightarrow> nat result" where
  "get_key_column simplex_table key_row =
     (if simplex_table = [] then Inl IndexError
      else if key_row \<ge> length simplex_table then Inl IndexError
      else (let F = simplex_table ! 0; K = simplex_table ! key_row;
                tetha = map (\<lambda>(x, y). if y < 0 then Some (x / y) else None)
                          (zip (take (length F - 2) F) (take (length K - 2) K))
            in Inr (fold (\<lambda>t key_column. if le_inf (tetha ! t) (tetha ! key_column) then t
                                           else key_column)
                      [0 ..< length tetha] 0)))"

fun gomory_loop ::
  "nat \<Rightarrow> table \<Rightarrow> nat list \<Rightarrow> history \<Rightarrow> bv_history \<Rightarrow> nat
     \<Rightarrow> (table \<times> nat list \<times> history \<times> bv_history) result option" where
  "gomory_loop 0 t basic_vars h bh step = None"
| "gomory_loop (Suc fuel) t basic_vars h bh step =
     (case check_integer_condition t of
        Inl e \<Rightarrow> Some (Inl e)
      | Inr True \<Rightarrow> Some (Inr (t, basic_vars, h, bh))
      | Inr False \<Rightarrow>
          (case ebind (add_clipping t basic_vars)
                  (\<lambda>(t1, basic_vars1). ebind (get_key_row t1)
                    (\<lambda>key_row. ebind (get_key_column t1 key_row)
                      (\<lambda>key_column. simplex_step t1 basic_vars1 key_column key_row))) of
             Inl e \<Rightarrow> Some (Inl e)
           | Inr (t', basic_vars') \<Rightarrow>
               gomory_loop fuel t' basic_vars'
                 (h @ [(Gomory_method_step step, t')])
                 (bh @ [(Gomory_method_step step, basic_vars')]) (step + 1)))"

text \<open>
  \<open>gomory_solve\<close> returns a pair on one path and a 4-tuple on the other. The table
  and the basic variables it works on are the objects stored last in the two
  histories of \<open>simplex_solve\<close>, and the loop changes them in place: when the 4-tuple
  is returned, those two history entries hold the final table and basic variables.
\<close>

datatype gomory_result =
    Two rat solution
  | Four rat solution history bv_history

definition gomory_finish ::
  "nat \<Rightarrow> nat \<Rightarrow> nat \<Rightarrow> (table \<times> nat list \<times> history \<times> bv_history) \<Rightarrow> gomory_result result" where
  "gomory_finish num_vars k kb r =
     (case r of (t, basic_vars, h, bh) \<Rightarrow>
        (case t of
           [] \<Rightarrow> Inl IndexError
         | F # _ \<Rightarrow>
             if F = [] then Inl IndexError
             else ebind (create_solution t basic_vars num_vars)
                    (\<lambda>plane. Inr (Four (last F) plane
                                     (h[k := (fst (h ! k), t)])
                                     (bh[kb := (fst (bh ! kb), basic_vars)])))))"

definition gomory_solve ::
  "nat \<Rightarrow> nat \<Rightarrow> string list \<Rightarrow> string \<times> string \<Rightarrow> gomory_result result option" where
  "gomory_solve fuel num_vars constraints objective_function =
     (case simplex_solve fuel num_vars constraints objective_function of
        None \<Rightarrow> None
      | Some (Inl e) \<Rightarrow> Some (Inl e)
      | Some (Inr (simplex_vals, simplex_solution, simplex_history, simplex_basic_vars_history)) \<Rightarrow>
          (if simplex_history = [] \<or> simplex_basic_vars_history = [] then Some (Inl IndexError)
           else
             (let simplex_table = snd (last simplex_history);
                  basic_vars = snd (last simplex_basic_vars_history)
              in case check_integer_condition simplex_table of
                   Inl e \<Rightarrow> Some (Inl e)
                 | Inr True \<Rightarrow>
                     (if simplex_table = [] \<or> hd simplex_table = [] then Some (Inl IndexError)
                      else Some (Inr (Two (last (hd simplex_table)) simplex_solution)))
                 | Inr False \<Rightarrow>
                     (case gomory_loop fuel simplex_table basic_vars
                             (simplex_history @ [(Initial_Gomory_method, simplex_table)])
                             (simplex_basic_vars_history @ [(Initial_Gomory_method, basic_vars)]) 1 of
                        None \<Rightarrow> None
                      | Some (Inl e) \<Rightarrow> Some (Inl e)
                      | Some (Inr r) \<Rightarrow>
                          Some (gomory_finish num_vars (length simplex_history - 1)
                                  (length simplex_basic_vars_history - 1) r)))))"

text \<open>The ratio of the minimum-ratio test: right-hand side by key-column entry of row \<open>i\<close>.\<close>

definition ratio :: "table \<Rightarrow> nat \<Rightarrow> nat \<Rightarrow> rat" where
  "ratio t key_column i = last (t ! i) / (t ! i ! key_column)"

text \<open>
  The optimality condition in the words of the specification: every entry of the
  objective row, the right-hand side excluded, is at most 0. It is stated here to be
  compared with \<open>check_condition\<close>.
\<close>

definition optimality_condition :: "table \<Rightarrow> bool" where
  "optimality_condition t = list_all (\<lambda>x. x \<le> 0) (butlast (hd t))"

section \<open>FunctionalApproach/main.py\<close>

text \<open>
  The caller assigns the result of \<open>gomory_solve\<close> to four targets; unpacking a pair
  into four targets fails (\<open>ValueError: not enough values to unpack\<close>).
\<close>

definition main_unpack :: "gomory_result \<Rightarrow> (rat \<times> solution \<times> history \<times> bv_history) result" where
  "main_unpack r =
     (case r of
        Two gomory_vals gomory_solution \<Rightarrow> Inl UnpackError
      | Four gomory_vals gomory_solution gomory_history basic_vars_history \<Rightarrow>
          Inr (gomory_vals, gomory_solution, gomory_history, basic_vars_history))"

section \<open>ObjectOrientedApproach\<close>

text \<open>
  The classes hold the tableau and the basic variables as attributes; the methods are
  modelled as functions on that state. Where a method has the same statements as the
  module function of the functional version (\<open>_check_condition\<close>, \<open>_find_key_column\<close>,
  \<open>_find_key_row\<close>, \<open>simplex_step\<close>, \<open>_delete_r_vars\<close>, \<open>get_solution\<close>,
  \<open>_update_objective_function\<close>, \<open>_check_integer_condition\<close>,
  \<open>_find_max_fractional_index\<close>, \<open>_get_key_row\<close>, \<open>_get_key_column\<close>), the definition
  above is used for both.

  \<open>SimplexTable.__init__\<close>: the counting loop and the token loop are those of
  \<open>construct_simplex_table\<close>; the right-hand side is written once, after the token
  loop; then the objective row is filled, on the tableau that still has its
  artificial columns.
\<close>

fun SimplexTable_fill_tokens ::
  "string list \<Rightarrow> nat \<Rightarrow> nat list \<Rightarrow> fill_state \<Rightarrow> fill_state result" where
  "SimplexTable_fill_tokens constraint i [] st = Inr st"
| "SimplexTable_fill_tokens constraint i (j # js) st =
     ebind (fill_token constraint i j st) (SimplexTable_fill_tokens constraint i js)"

fun SimplexTable_fill_rows ::
  "nat \<Rightarrow> string list \<Rightarrow> nat \<Rightarrow> nat \<times> nat \<times> nat list \<Rightarrow> table \<Rightarrow> (table \<times> nat list) result" where
  "SimplexTable_fill_rows width [] i (s_index, r_index, r_rows) done_rows = Inr (done_rows, r_rows)"
| "SimplexTable_fill_rows width (c # cs) i (s_index, r_index, r_rows) done_rows =
     (let constraint = split_on CHR '' '' c in
      ebind (SimplexTable_fill_tokens constraint i [0 ..< length constraint]
               (replicate width 0, s_index, r_index, r_rows))
        (\<lambda>st. ebind (fill_rhs constraint st)
          (\<lambda>(row, s_index', r_index', r_rows').
             SimplexTable_fill_rows width cs (i + 1) (s_index', r_index', r_rows')
               (done_rows @ [row]))))"

definition SimplexTable_init ::
  "nat \<Rightarrow> string list \<Rightarrow> string \<Rightarrow> string \<Rightarrow> (table \<times> nat list \<times> nat \<times> nat) result" where
  "SimplexTable_init num_vars constraints objective objective_function =
     (let (num_s_vars, num_r_vars) = count_vars constraints (0, 0);
          total_vars = num_vars + num_s_vars + num_r_vars
      in ebind (SimplexTable_fill_rows (total_vars + 1) constraints 1
                  (num_vars, num_vars + num_s_vars, []) [replicate (total_vars + 1) 0])
           (\<lambda>(coeff_matrix, r_rows).
              ebind (update_objective_function coeff_matrix objective_function objective)
                (\<lambda>m. Inr (m, r_rows, num_s_vars, num_r_vars))))"

text \<open>
  \<open>SimplexMethod.__init__\<close>: the basic variables are all 0 when they are tested, and
  \<open>_phase1\<close> is not called.
\<close>

definition SimplexMethod_init ::
  "nat \<Rightarrow> string list \<Rightarrow> string \<times> string \<Rightarrow> (table \<times> nat list) result" where
  "SimplexMethod_init num_vars constraints objective_function =
     ebind (SimplexTable_init num_vars constraints (fst objective_function) (snd objective_function))
       (\<lambda>(t, r_rows, num_s_vars, num_r_vars).
          (let basic_vars = replicate (length t) 0 in
           if list_ex (\<lambda>i. i > num_r_vars + num_s_vars) basic_vars
           then Inl (ValueError ''Infeasible solution'')
           else ebind (delete_r_vars t num_vars num_s_vars)
                  (\<lambda>t'. Inr (t', basic_vars))))"

text \<open>
  The re-normalisation in \<open>SimplexMethod.solve\<close>: \<open>SimplexTable.multiply_const_row\<close>
  multiplies \<open>self._coeff_matrix[index + 1]\<close>.
\<close>

definition SimplexTable_multiply_const_row :: "table \<Rightarrow> rat \<Rightarrow> nat \<Rightarrow> rat list result" where
  "SimplexTable_multiply_const_row t const index =
     (if index + 1 < length t then Inr (map (\<lambda>i. const * i) (t ! (index + 1)))
      else Inl IndexError)"

fun SimplexMethod_renormalize :: "(nat \<times> nat) list \<Rightarrow> table \<Rightarrow> table result" where
  "SimplexMethod_renormalize [] t = Inr t"
| "SimplexMethod_renormalize ((row, column) # rest) t =
     (case t of
        [] \<Rightarrow> Inl IndexError
      | F # others \<Rightarrow>
          (if \<not> column < length F then Inl IndexError
           else if F ! column \<noteq> 0 then
             ebind (SimplexTable_multiply_const_row t (- (F ! column)) row)
               (\<lambda>result. ebind (sum_rows F result)
                 (\<lambda>F'. SimplexMethod_renormalize rest (F' # others)))
           else SimplexMethod_renormalize rest t))"

text \<open>
  \<open>SimplexMethod.solve\<close> returns the optimum and the plan; the state it leaves is
  returned with them. The histories are attributes that no result depends on.
\<close>

definition SimplexMethod_solve ::
  "nat \<Rightarrow> nat \<Rightarrow> table \<times> nat list \<Rightarrow> ((rat \<times> solution) \<times> table \<times> nat list) result option" where
  "SimplexMethod_solve fuel num_vars st =
     (case st of (t, basic_vars) \<Rightarrow>
        (case SimplexMethod_renormalize (enumerate 0 (tl basic_vars)) t of
           Inl e \<Rightarrow> Some (Inl e)
         | Inr t1 \<Rightarrow>
             (case phase2_loop fuel t1 basic_vars [] [] 1 of
                None \<Rightarrow> None
              | Some (Inl e) \<Rightarrow> Some (Inl e)
              | Some (Inr (t2, basic_vars2, _, _)) \<Rightarrow>
                  (if t2 = [] \<or> hd t2 = [] then Some (Inl IndexError)
                   else Some (ebind (create_solution t2 basic_vars2 num_vars)
                                (\<lambda>optimal_plane. Inr ((last (hd t2), optimal_plane), t2, basic_vars2)))))))"

text \<open>
  \<open>GomoryMethod._add_clipping\<close>: \<open>add_zero_row\<close> takes the length of row 1, the rest
  is \<open>add_clipping\<close>.
\<close>

definition GomoryMethod_add_clipping :: "table \<Rightarrow> nat list \<Rightarrow> (table \<times> nat list) result" where
  "GomoryMethod_add_clipping simplex_table basic_vars =
     ebind (find_max_fractional_index simplex_table)
       (\<lambda>index.
          if \<not> 1 < length simplex_table then Inl IndexError
          else (let t1 = map (insert_before_last 0) simplex_table
                         @ [insert_before_last 1 (replicate (length (simplex_table ! 1)) 0)]
                in if \<not> index < length t1 then Inl IndexError
                   else ebind (clip_row (enumerate 0 (t1 ! index)) (last t1))
                          (\<lambda>new_row. Inr (butlast t1 @ [new_row],
                                           basic_vars @ [length t1 - 1]))))"

fun GomoryMethod_loop ::
  "nat \<Rightarrow> table \<Rightarrow> nat list \<Rightarrow> (table \<times> nat list) result option" where
  "GomoryMethod_loop 0 t basic_vars = None"
| "GomoryMethod_loop (Suc fuel) t basic_vars =
     (case check_integer_condition t of
        Inl e \<Rightarrow> Some (Inl e)
      | Inr True \<Rightarrow> Some (Inr (t, basic_vars))
      | Inr False \<Rightarrow>
          (case ebind (GomoryMethod_add_clipping t basic_vars)
                  (\<lambda>(t1, basic_vars1). ebind (get_key_row t1)
                    (\<lambda>key_row. ebind (get_key_column t1 key_row)
                      (\<lambda>key_column. simplex_step t1 basic_vars1 key_column key_row))) of
             Inl e \<Rightarrow> Some (Inl e)
           | Inr (t', basic_vars') \<Rightarrow> GomoryMethod_loop fuel t' basic_vars'))"

definition GomoryMethod_integer_solve ::
  "nat \<Rightarrow> nat \<Rightarrow> solution \<Rightarrow> table \<times> nat list \<Rightarrow> (rat \<times> solution) result option" where
  "GomoryMethod_integer_solve fuel num_vars simplex_solution st =
     (case st of (t, basic_vars) \<Rightarrow>
        (case check_integer_condition t of
           Inl e \<Rightarrow> Some (Inl e)
         | Inr True \<Rightarrow>
             (if t = [] \<or> hd t = [] then Some (Inl IndexError)
              else Some (Inr (last (hd t), simplex_solution)))
         | Inr False \<Rightarrow>
             (case GomoryMethod_loop fuel t basic_vars of
                None \<Rightarrow> None
              | Some (Inl e) \<Rightarrow> Some (Inl e)
              | Some (Inr (t', basic_vars')) \<Rightarrow>
                  (if t' = [] \<or> hd t' = [] then Some (Inl IndexError)
                   else Some (ebind (create_solution t' basic_vars' num_vars)
                                (\<lambda>plane. Inr (last (hd t'), plane)))))))"

text \<open>
  The constructor \<open>GomoryMethod(...)\<close>, which runs \<open>solve\<close>, followed by
  \<open>integer_solve()\<close>, as in \<open>ObjectOrientedApproach/main.py\<close>.
\<close>

definition GomoryMethod_relaxation ::
  "nat \<Rightarrow> nat \<Rightarrow> string list \<Rightarrow> string \<times> string
     \<Rightarrow> ((rat \<times> solution) \<times> table \<times> nat list) result option" where
  "GomoryMethod_relaxation fuel num_vars constraints objective_function =
     (case SimplexMethod_init num_vars constraints objective_function of
        Inl e \<Rightarrow> Some (Inl e)
      | Inr st \<Rightarrow> SimplexMethod_solve fuel num_vars st)"

definition GomoryMethod_run ::
  "nat \<Rightarrow> nat \<Rightarrow> string list \<Rightarrow> string \<times> string \<Rightarrow> (rat \<times> solution) result option" where
  "GomoryMethod_run fuel num_vars constraints objective_function =
     (case GomoryMethod_relaxation fuel num_vars constraints objective_function of
        None \<Rightarrow> None
      | Some (Inl e) \<Rightarrow> Some (Inl e)
      | Some (Inr ((simplex_vals, simplex_solution), st)) \<Rightarrow>
          GomoryMethod_integer_solve fuel num_vars simplex_solution st)"

section \<open>The example of FunctionalApproach/main.py\<close>

text \<open>
  The input of \<open>main.py\<close> and the tables of its run: the table before phase 2, after
  each of the two pivots of phase 2, and after each of the six Gomory steps.
\<close>

definition example_constraints :: "string list" where
  "example_constraints = [''2x_1 + 5x_2 <= 19'', ''4x_1 + 1x_2 <= 16'']"

definition example_objective :: "string \<times> string" where
  "example_objective = (''maximize'', ''8x_1 + 6x_2'')"

definition example_T0 :: table where
  "example_T0 = [[8, 6, 0, 0, 0], [2, 5, 1, 0, 19], [4, 1, 0, 1, 16]]"

definition example_T1 :: table where
  "example_T1 = [[0, 4, 0, - 2, - 32], [0, 9 / 2, 1, - (1 / 2), 11], [1, 1 / 4, 0, 1 / 4, 4]]"

definition example_T2 :: table where
  "example_T2 = [[0, 0, - (8 / 9), - (14 / 9), - (376 / 9)],
                 [0, 1, 2 / 9, - (1 / 9), 22 / 9],
                 [1, 0, - (1 / 18), 5 / 18, 61 / 18]]"

definition example_G1 :: table where
  "example_G1 = [[0, 0, - (1 / 2), 0, - (7 / 4), - 41],
                 [0, 1, 1 / 4, 0, - (1 / 8), 5 / 2],
                 [1, 0, - (1 / 8), 0, 5 / 16, 13 / 4],
                 [0, 0, 1 / 4, 1, - (9 / 8), 1 / 2]]"

definition example_G2 :: table where
  "example_G2 = [[0, 0, 0, 0, 0, - 2, - 40],
                 [0, 1, 2 / 7, 0, 0, - (1 / 7), 18 / 7],
                 [1, 0, - (3 / 14), 0, 0, 5 / 14, 43 / 14],
                 [0, 0, 4 / 7, 1, 0, - (9 / 7), 8 / 7],
                 [0, 0, 2 / 7, 0, 1, - (8 / 7), 4 / 7]]"

definition example_G3 :: table where
  "example_G3 = [[0, 0, 0, 0, 0, - 2, 0, - 40],
                 [0, 1, 0, 0, 0, - 1, 1, 2],
                 [1, 0, 0, 0, 0, 1, - (3 / 4), 7 / 2],
                 [0, 0, 0, 1, 0, - 3, 2, 0],
                 [0, 0, 0, 0, 1, - 2, 1, 0],
                 [0, 0, 1, 0, 0, 3, - (7 / 2), 2]]"

definition example_G4 :: table where
  "example_G4 = [[0, 0, 0, 0, 0, - 2, 0, 0, - 40],
                 [0, 1, 0, 0, 0, - 1, 0, 4, 0],
                 [1, 0, 0, 0, 0, 1, 0, - 3, 5],
                 [0, 0, 0, 1, 0, - 3, 0, 8, - 4],
                 [0, 0, 0, 0, 1, - 2, 0, 4, - 2],
                 [0, 0, 1, 0, 0, 3, 0, - 14, 9],
                 [0, 0, 0, 0, 0, 0, 1, - 4, 2]]"

definition example_G5 :: table where
  "example_G5 = [[0, 0, 0, - (2 / 3), 0, 0, 0, - (16 / 3), 0, - (112 / 3)],
                 [0, 1, 0, - (1 / 3), 0, 0, 0, 4 / 3, 0, 4 / 3],
                 [1, 0, 0, 1 / 3, 0, 0, 0, - (1 / 3), 0, 11 / 3],
                 [0, 0, 0, - (1 / 3), 0, 1, 0, - (8 / 3), 0, 4 / 3],
                 [0, 0, 0, - (2 / 3), 1, 0, 0, - (4 / 3), 0, 2 / 3],
                 [0, 0, 1, 1, 0, 0, 0, - 6, 0, 5],
                 [0, 0, 0, 0, 0, 0, 1, - 4, 0, 2],
                 [0, 0, 0, 0, 0, 0, 0, 0, 1, 0]]"

definition example_G6 :: table where
  "example_G6 = [[0, 0, 0, 0, 0, 0, 0, - 4, 0, - 2, - 36],
                 [0, 1, 0, 0, 0, 0, 0, 2, 0, - 1, 2],
                 [1, 0, 0, 0, 0, 0, 0, - 1, 0, 1, 3],
                 [0, 0, 0, 0, 0, 1, 0, - 2, 0, - 1, 2],
                 [0, 0, 0, 0, 1, 0, 0, 0, 0, - 2, 2],
                 [0, 0, 1, 0, 0, 0, 0, - 8, 0, 3, 3],
                 [0, 0, 0, 0, 0, 0, 1, - 4, 0, 0, 2],
                 [0, 0, 0, 0, 0, 0, 0, 0, 1, 0, 0],
                 [0, 0, 0, 1, 0, 0, 0, 2, 0, - 3, 2]]"

text \<open>
  What a caller reads off a result: the optimum and the value of \<open>x_k\<close>, when the
  solve returned.
\<close>

definition solve_optimum :: "solve_result result option \<Rightarrow> rat option" where
  "solve_optimum r = (case r of Some (Inr (v, sol, h, bh)) \<Rightarrow> Some v | _ \<Rightarrow> None)"

definition solve_value :: "solve_result result option \<Rightarrow> nat \<Rightarrow> rat option" where
  "solve_value r k = (case r of Some (Inr (v, sol, h, bh)) \<Rightarrow> map_of sol k | _ \<Rightarrow> None)"

definition gomory_optimum :: "gomory_result result option \<Rightarrow> rat option" where
  "gomory_optimum r =
     (case r of Some (Inr (Two v sol)) \<Rightarrow> Some v | Some (Inr (Four v sol h bh)) \<Rightarrow> Some v
      | _ \<Rightarrow> None)"

definition gomory_value :: "gomory_result result option \<Rightarrow> nat \<Rightarrow> rat option" where
  "gomory_value r k =
     (case r of Some (Inr (Two v sol)) \<Rightarrow> map_of sol k
      | Some (Inr (Four v sol h bh)) \<Rightarrow> map_of sol k | _ \<Rightarrow> None)"

definition is_Four :: "gomory_result result option \<Rightarrow> bool" where
  "is_Four r = (case r of Some (Inr (Four v sol h bh)) \<Rightarrow> True | _ \<Rightarrow> False)"

section \<open>Properties of the pivot step\<close>

lemma sequence_e_map_Inr:
  "(\<And>x. x \<in> set xs \<Longrightarrow> f x = Inr (g x)) \<Longrightarrow> sequence_e (map f xs) = Inr (map g xs)"
  by (induction xs) auto

lemma rect_length: "rect t \<Longrightarrow> i < length t \<Longrightarrow> length (t ! i) = length (hd t)"
  by (simp add: rect_def list_all_length)

lemma normalize_rect:
  assumes "rect t" "kr < length t" "kc < length (hd t)" "p \<noteq> 0"
  shows "normalize_to_pivot t kr p = Inr (t[kr := map (\<lambda>x. x / p) (t ! kr)])"
proof -
  obtain F rest where t: "t = F # rest" using assms(2) by (cases t) auto
  have len: "length (t ! kr) = length F" using rect_length[OF assms(1,2)] t by simp
  have "F \<noteq> []" using assms(3) t by auto
  then show ?thesis using assms len t
    by (auto simp: normalize_to_pivot_def Let_def)
qed

lemma zero_row_rect:
  assumes "length row = n" "length krow = n" "kc < n"
  shows "zero_row n krow kc row = Inr (map2 (\<lambda>a b. a - b * (row ! kc)) row krow)"
  using assms by (simp add: zero_row_def)

lemma make_zero_rect:
  assumes "rect t" "kr < length t" "kc < length (hd t)"
  shows "make_key_column_zero t kc kr =
     Inr (map (\<lambda>(i, row). if i \<noteq> kr then map2 (\<lambda>a b. a - b * (row ! kc)) row (t ! kr) else row)
            (enumerate 0 t))"
proof -
  obtain F rest where t: "t = F # rest" using assms(2) by (cases t) auto
  have n: "length (hd t) = length F" using t by simp
  have rows: "\<And>r. r \<in> set t \<Longrightarrow> length r = length F"
    using assms(1) t by (auto simp: rect_def list_all_iff)
  have kl: "length (t ! kr) = length F" using rect_length[OF assms(1,2)] n by simp
  have "sequence_e
          (map (\<lambda>(i, row). if i \<noteq> kr then zero_row (length F) (t ! kr) kc row else Inr row)
             (enumerate 0 t))
        = Inr (map (\<lambda>(i, row). if i \<noteq> kr then map2 (\<lambda>a b. a - b * (row ! kc)) row (t ! kr) else row)
            (enumerate 0 t))"
  proof (rule sequence_e_map_Inr)
    fix x assume "x \<in> set (enumerate 0 t)"
    then have "fst x < length t" and "snd x = t ! fst x"
      by (auto simp: in_set_enumerate_eq)
    then have "snd x \<in> set t" by simp
    then have "length (snd x) = length F" using rows by blast
    then show "(case x of (i, row) \<Rightarrow> if i \<noteq> kr then zero_row (length F) (t ! kr) kc row else Inr row)
        = Inr (case x of (i, row) \<Rightarrow> if i \<noteq> kr then map2 (\<lambda>a b. a - b * (row ! kc)) row (t ! kr) else row)"
      using kl assms(3) n by (cases x) (auto simp: zero_row_rect)
  qed
  from this[unfolded t] assms(2)[unfolded t] show ?thesis unfolding t
    by (simp add: make_key_column_zero_def Let_def del: enumerate_simps)
qed

lemma rect_update:
  assumes "rect t" "kr < length t" "length r = length (hd t)"
  shows "rect (t[kr := r])" "length (hd (t[kr := r])) = length (hd t)"
proof -
  obtain F rest where t: "t = F # rest" using assms(2) by (cases t) auto
  show 2: "length (hd (t[kr := r])) = length (hd t)"
    using assms t by (cases kr) auto
  show "rect (t[kr := r])"
    unfolding rect_def list_all_iff
  proof
    fix x assume "x \<in> set (t[kr := r])"
    then have "x \<in> insert r (set t)" using set_update_subset_insert by fastforce
    then have "length x = length (hd t)" using assms by (auto simp: rect_def list_all_iff)
    then show "length x = length (hd (t[kr := r]))" using 2 by simp
  qed
qed

text \<open>
  C7. After one pivot step on a rectangular tableau at a position whose entry is not
  zero, the step returns, the key column is a unit vector (1 in the key row, 0 in
  every other row) and the basic variable of the key row is the key column.
\<close>

theorem simplex_step_unit_column:
  assumes "rect t" and "key_row < length t" and "key_column < length (hd t)"
    and "key_row < length basic_vars" and "t ! key_row ! key_column \<noteq> 0"
  shows "\<exists>t' bv'. simplex_step t basic_vars key_column key_row = Inr (t', bv')
           \<and> length t' = length t
           \<and> t' ! key_row ! key_column = 1
           \<and> (\<forall>i < length t'. i \<noteq> key_row \<longrightarrow> t' ! i ! key_column = 0)
           \<and> bv' ! key_row = key_column"
proof -
  let ?p = "t ! key_row ! key_column"
  let ?krow = "map (\<lambda>x. x / ?p) (t ! key_row)"
  let ?t1 = "t[key_row := ?krow]"
  let ?t2 = "map (\<lambda>(i, row). if i \<noteq> key_row
                 then map2 (\<lambda>a b. a - b * (row ! key_column)) row (?t1 ! key_row) else row)
               (enumerate 0 ?t1)"
  have len: "length (t ! key_row) = length (hd t)" using rect_length[OF assms(1,2)] .
  have n1: "normalize_to_pivot t key_row ?p = Inr ?t1"
    using normalize_rect[OF assms(1,2,3,5)] .
  have r1: "rect ?t1" and h1: "length (hd ?t1) = length (hd t)"
    using rect_update[OF assms(1,2), of ?krow] len by simp_all
  have m1: "make_key_column_zero ?t1 key_column key_row = Inr ?t2"
    using make_zero_rect[of ?t1 key_row key_column] r1 h1 assms(2,3) by simp
  have step: "simplex_step t basic_vars key_column key_row
                = Inr (?t2, basic_vars[key_row := key_column])"
    using assms(2,3,4) len n1 m1 by (simp add: simplex_step_def ebind_def)
  have k1: "?t1 ! key_row = ?krow" using assms(2) by simp
  have kk: "?krow ! key_column = 1" using assms(3,5) len by simp
  have a: "?t2 ! key_row ! key_column = 1"
    using assms(2) k1 kk by (simp add: nth_enumerate_eq)
  have b: "\<forall>i < length ?t2. i \<noteq> key_row \<longrightarrow> ?t2 ! i ! key_column = 0"
  proof (intro allI impI)
    fix i assume i: "i < length ?t2" and ne: "i \<noteq> key_row"
    then have il: "i < length t" by simp
    have li: "length (?t1 ! i) = length (hd t)"
      using rect_length[OF r1, of i] il h1 by simp
    have "?t2 ! i = map2 (\<lambda>a b. a - b * ((?t1 ! i) ! key_column)) (?t1 ! i) (?t1 ! key_row)"
      using il ne by (simp add: nth_enumerate_eq)
    then show "?t2 ! i ! key_column = 0"
      using li assms(3) len k1 kk by simp
  qed
  show ?thesis using step a b assms(4) by simp
qed


theorem simplex_step_unit_column_witness:
  "\<exists>t' bv'. simplex_step [[8, 6, 0, 0, 0], [2, 5, 1, 0, 19], [4, 1, 0, 1, 16]] [0, 2, 3] 0 2
              = Inr (t', bv')
     \<and> t' ! 2 ! 0 = 1 \<and> t' ! 0 ! 0 = 0 \<and> t' ! 1 ! 0 = 0 \<and> bv' ! 2 = 0"
proof -
  let ?T = "[[8, 6, 0, 0, 0], [2, 5, 1, 0, 19], [4, 1, 0, 1, 16 :: rat]]"
  have 1: "rect ?T" by (simp add: rect_def)
  have 2: "2 < length ?T" by simp
  have 3: "0 < length (hd ?T)" by simp
  have 4: "2 < length [0, 2, 3 :: nat]" by simp
  have 5: "?T ! 2 ! 0 \<noteq> 0" by simp
  from simplex_step_unit_column[OF 1 2 3 4 5]
  obtain t' bv' where s: "simplex_step ?T [0, 2, 3] 0 2 = Inr (t', bv')"
    and l: "length t' = length ?T" and a: "t' ! 2 ! 0 = 1"
    and b: "\<forall>i < length t'. i \<noteq> 2 \<longrightarrow> t' ! i ! 0 = 0" and c: "bv' ! 2 = 0"
    by blast
  from b l have "t' ! 0 ! 0 = 0" "t' ! 1 ! 0 = 0" by simp_all
  with s a c show ?thesis by blast
qed

section \<open>Key row of the pivot cycle\<close>

lemma find_key_row_loop_char:
  assumes "sorted_wrt (<) is" and "\<forall>i\<in>set is. kc < length (t ! i)"
  shows "\<exists>mv' kr'. find_key_row_loop t kc is (mv, kr) = Inr (mv', kr') \<and>
     ((mv' = mv \<and> kr' = kr \<and> (\<forall>i\<in>set is. 0 < t ! i ! kc \<longrightarrow> (\<exists>m. mv = Some m \<and> m \<le> ratio t kc i)))
      \<or> (kr' \<in> set is \<and> 0 < t ! kr' ! kc \<and> mv' = Some (ratio t kc kr')
          \<and> (\<forall>m. mv = Some m \<longrightarrow> ratio t kc kr' < m)
          \<and> (\<forall>i\<in>set is. 0 < t ! i ! kc \<longrightarrow> ratio t kc kr' \<le> ratio t kc i)
          \<and> (\<forall>i\<in>set is. 0 < t ! i ! kc \<and> i < kr' \<longrightarrow> ratio t kc kr' < ratio t kc i)))"
  using assms
proof (induction "is" arbitrary: mv kr)
  case Nil
  then show ?case by simp
next
  case (Cons i rest)
  have srt: "sorted_wrt (<) rest" and gt: "\<forall>j\<in>set rest. i < j"
    using Cons.prems(1) by auto
  have idx: "\<forall>j\<in>set rest. kc < length (t ! j)" and ii: "kc < length (t ! i)"
    using Cons.prems(2) by auto
  show ?case
  proof (cases "0 < t ! i ! kc")
    case False
    from Cons.IH[OF srt idx, of mv kr] False ii show ?thesis
      by (auto simp: Let_def)
  next
    case cand: True
    show ?thesis
    proof (cases "case mv of None \<Rightarrow> True | Some m \<Rightarrow> ratio t kc i < m")
      case True
      then have eq: "find_key_row_loop t kc (i # rest) (mv, kr)
                   = find_key_row_loop t kc rest (Some (ratio t kc i), i)"
        using cand ii unfolding ratio_def by (simp add: Let_def)
      from Cons.IH[OF srt idx, of "Some (ratio t kc i)" i]
      obtain mv' kr' where r: "find_key_row_loop t kc rest (Some (ratio t kc i), i) = Inr (mv', kr')"
        and d: "(mv' = Some (ratio t kc i) \<and> kr' = i \<and>
                   (\<forall>j\<in>set rest. 0 < t ! j ! kc \<longrightarrow> ratio t kc i \<le> ratio t kc j))
              \<or> (kr' \<in> set rest \<and> 0 < t ! kr' ! kc \<and> mv' = Some (ratio t kc kr')
                  \<and> ratio t kc kr' < ratio t kc i
                  \<and> (\<forall>j\<in>set rest. 0 < t ! j ! kc \<longrightarrow> ratio t kc kr' \<le> ratio t kc j)
                  \<and> (\<forall>j\<in>set rest. 0 < t ! j ! kc \<and> j < kr' \<longrightarrow> ratio t kc kr' < ratio t kc j))"
        by auto
      from d show ?thesis
      proof
        assume a: "mv' = Some (ratio t kc i) \<and> kr' = i \<and>
                   (\<forall>j\<in>set rest. 0 < t ! j ! kc \<longrightarrow> ratio t kc i \<le> ratio t kc j)"
        have "\<forall>m. mv = Some m \<longrightarrow> ratio t kc i < m" using True by (auto split: option.splits)
        moreover have "\<forall>j\<in>set (i # rest). 0 < t ! j ! kc \<and> j < i \<longrightarrow> ratio t kc i < ratio t kc j"
          using gt by auto
        ultimately show ?thesis using a r eq cand by auto
      next
        assume b: "kr' \<in> set rest \<and> 0 < t ! kr' ! kc \<and> mv' = Some (ratio t kc kr')
                  \<and> ratio t kc kr' < ratio t kc i
                  \<and> (\<forall>j\<in>set rest. 0 < t ! j ! kc \<longrightarrow> ratio t kc kr' \<le> ratio t kc j)
                  \<and> (\<forall>j\<in>set rest. 0 < t ! j ! kc \<and> j < kr' \<longrightarrow> ratio t kc kr' < ratio t kc j)"
        have "\<forall>m. mv = Some m \<longrightarrow> ratio t kc kr' < m"
          using True b by (auto split: option.splits)
        then show ?thesis using b r eq by auto
      qed
    next
      case False
      then obtain m where m: "mv = Some m" and le: "m \<le> ratio t kc i"
        by (auto split: option.splits)
      have eq: "find_key_row_loop t kc (i # rest) (mv, kr) = find_key_row_loop t kc rest (mv, kr)"
        using cand ii m le by (simp add: ratio_def Let_def)
      from Cons.IH[OF srt idx, of mv kr] show ?thesis
        unfolding eq using m le by auto
    qed
  qed
qed

text \<open>
  C9. On a tableau whose rows 1.. all have the key column: when some row has a
  positive entry in the key column, \<open>find_key_row\<close> returns a row with a positive entry
  whose ratio is minimal, the earliest such row, together with the degeneracy warning
  exactly when that ratio is zero; when no row has a positive entry there, it raises
  \<open>ValueError('Unbounded solution')\<close>.
\<close>

theorem find_key_row_min_ratio:
  assumes "\<forall>i. 1 \<le> i \<and> i < length t \<longrightarrow> key_column < length (t ! i)"
  shows "if \<exists>i. 1 \<le> i \<and> i < length t \<and> 0 < t ! i ! key_column
         then \<exists>k. find_key_row t key_column = Inr (k, ratio t key_column k = 0)
                \<and> 1 \<le> k \<and> k < length t \<and> 0 < t ! k ! key_column
                \<and> (\<forall>i. 1 \<le> i \<and> i < length t \<and> 0 < t ! i ! key_column
                        \<longrightarrow> ratio t key_column k \<le> ratio t key_column i)
                \<and> (\<forall>i. 1 \<le> i \<and> i < k \<and> 0 < t ! i ! key_column
                        \<longrightarrow> ratio t key_column k < ratio t key_column i)
         else find_key_row t key_column = Inl (ValueError ''Unbounded solution'')"
proof -
  have s: "sorted_wrt (<) [1 ..< length t]" by simp
  have ix: "\<forall>i\<in>set [1 ..< length t]. key_column < length (t ! i)" using assms by simp
  from find_key_row_loop_char[OF s ix, of None 0]
  obtain mv' kr' where r: "find_key_row_loop t key_column [1 ..< length t] (None, 0) = Inr (mv', kr')"
    and d: "(mv' = None \<and> kr' = 0 \<and> (\<forall>i\<in>set [1 ..< length t]. \<not> 0 < t ! i ! key_column))
        \<or> (kr' \<in> set [1 ..< length t] \<and> 0 < t ! kr' ! key_column \<and> mv' = Some (ratio t key_column kr')
          \<and> (\<forall>i\<in>set [1 ..< length t]. 0 < t ! i ! key_column \<longrightarrow> ratio t key_column kr' \<le> ratio t key_column i)
          \<and> (\<forall>i\<in>set [1 ..< length t]. 0 < t ! i ! key_column \<and> i < kr' \<longrightarrow> ratio t key_column kr' < ratio t key_column i))"
    by auto
  from d show ?thesis
  proof
    assume "mv' = None \<and> kr' = 0 \<and> (\<forall>i\<in>set [1 ..< length t]. \<not> 0 < t ! i ! key_column)"
    then show ?thesis using r by (auto simp: find_key_row_def)
  next
    assume b: "kr' \<in> set [1 ..< length t] \<and> 0 < t ! kr' ! key_column \<and> mv' = Some (ratio t key_column kr')
          \<and> (\<forall>i\<in>set [1 ..< length t]. 0 < t ! i ! key_column \<longrightarrow> ratio t key_column kr' \<le> ratio t key_column i)
          \<and> (\<forall>i\<in>set [1 ..< length t]. 0 < t ! i ! key_column \<and> i < kr' \<longrightarrow> ratio t key_column kr' < ratio t key_column i)"
    then have ex: "\<exists>i. 1 \<le> i \<and> i < length t \<and> 0 < t ! i ! key_column" by auto
    have res: "find_key_row t key_column = Inr (kr', ratio t key_column kr' = 0)"
      using r b by (simp add: find_key_row_def)
    have "1 \<le> kr' \<and> kr' < length t \<and> 0 < t ! kr' ! key_column
        \<and> (\<forall>i. 1 \<le> i \<and> i < length t \<and> 0 < t ! i ! key_column
                \<longrightarrow> ratio t key_column kr' \<le> ratio t key_column i)
        \<and> (\<forall>i. 1 \<le> i \<and> i < kr' \<and> 0 < t ! i ! key_column
                \<longrightarrow> ratio t key_column kr' < ratio t key_column i)"
      using b by auto
    with res ex show ?thesis by auto
  qed
qed

theorem find_key_row_min_ratio_witness:
  "find_key_row [[8, 6, 0, 0, 0], [2, 5, 1, 0, 19], [4, 1, 0, 1, 16]] 0 = Inr (2, False)"
proof -
  let ?T = "[[8, 6, 0, 0, 0], [2, 5, 1, 0, 19], [4, 1, 0, 1, 16 :: rat]]"
  have h: "\<forall>i. 1 \<le> i \<and> i < length ?T \<longrightarrow> 0 < length (?T ! i)"
    by (auto simp: nth_Cons split: nat.splits)
  have c: "\<exists>i. 1 \<le> i \<and> i < length ?T \<and> 0 < ?T ! i ! 0"
    by (rule exI[of _ 1]) simp
  from find_key_row_min_ratio[OF h] c
  obtain k where r: "find_key_row ?T 0 = Inr (k, ratio ?T 0 k = 0)"
    and k: "1 \<le> k" "k < length ?T"
    and m: "\<forall>i. 1 \<le> i \<and> i < length ?T \<and> 0 < ?T ! i ! 0 \<longrightarrow> ratio ?T 0 k \<le> ratio ?T 0 i"
    by (auto split: if_splits)
  from k have "k = 1 \<or> k = 2" by auto
  moreover have "k \<noteq> 1" using m[rule_format, of 2] by (auto simp: ratio_def)
  ultimately have "k = 2" by simp
  with r show ?thesis by (simp add: ratio_def)
qed

section \<open>The optimality test and the loop of phase 2\<close>

lemma filter_all_length: "(length (filter P xs) = length xs) = list_all P xs"
proof (induction xs)
  case Nil
  then show ?case by simp
next
  case (Cons x xs)
  have "length (filter P xs) \<le> length xs" by simp
  then show ?case using Cons by (auto simp del: length_filter_le)
qed

lemma check_condition_Cons: "check_condition (F # rest) = Inr (list_all (\<lambda>x. x \<le> 0) F)"
  by (simp add: check_condition_def filter_all_length)

lemma phase2_loop_result:
  "phase2_loop fuel t bv h bh step = Some (Inr (t', bv', h', bh')) \<Longrightarrow>
     check_condition t' = Inr True
     \<and> (check_condition t = Inr True \<longrightarrow> t' = t \<and> bv' = bv \<and> h' = h \<and> bh' = bh)
     \<and> (check_condition t \<noteq> Inr True \<longrightarrow> length h < length h')
     \<and> length h \<le> length h'"
proof (induction fuel arbitrary: t bv h bh step)
  case 0
  then show ?case by simp
next
  case (Suc fuel)
  show ?case
  proof (cases "check_condition t")
    case (Inl e)
    with Suc.prems show ?thesis by simp
  next
    case (Inr c)
    show ?thesis
    proof (cases c)
      case True
      with Inr Suc.prems show ?thesis by simp
    next
      case False
      let ?s = "ebind (find_key_column t)
                  (\<lambda>key_column. ebind (find_key_row t key_column)
                    (\<lambda>(key_row, _). simplex_step t bv key_column key_row))"
      from Suc.prems Inr False obtain t1 bv1 where s: "?s = Inr (t1, bv1)"
        and r: "phase2_loop fuel t1 bv1 (h @ [(Simplex_method_step step, t1)])
                  (bh @ [(Simplex_method_step step, bv1)]) (step + 1) = Some (Inr (t', bv', h', bh'))"
        by (cases ?s) auto
      from Suc.IH[OF r] Inr False show ?thesis by auto
    qed
  qed
qed

text \<open>
  C3 (as amended). \<open>check_condition\<close> returns True exactly when every entry of the
  objective row, the right-hand side included, is at most 0. The pivot loop of phase
  2 stops exactly on that condition: when it holds the loop returns at once with the
  state unchanged, and whenever the loop returns, the condition holds on the table it
  returns, and no step was recorded exactly when it already held at the start.
\<close>

theorem phase2_stops_iff_check_condition:
  "check_condition (F # rest) = Inr (list_all (\<lambda>x. x \<le> 0) F)
   \<and> (check_condition t = Inr True
        \<longrightarrow> phase2_loop (Suc fuel) t bv h bh step = Some (Inr (t, bv, h, bh)))
   \<and> (phase2_loop fuel t bv h bh step = Some (Inr (t', bv', h', bh'))
        \<longrightarrow> check_condition t' = Inr True \<and> ((h' = h) = (check_condition t = Inr True)))"
proof (intro conjI impI)
  show "check_condition (F # rest) = Inr (list_all (\<lambda>x. x \<le> 0) F)"
    by (rule check_condition_Cons)
next
  assume "check_condition t = Inr True"
  then show "phase2_loop (Suc fuel) t bv h bh step = Some (Inr (t, bv, h, bh))" by simp
next
  assume a: "phase2_loop fuel t bv h bh step = Some (Inr (t', bv', h', bh'))"
  from phase2_loop_result[OF a] show "check_condition t' = Inr True" by simp
  from phase2_loop_result[OF a] show "(h' = h) = (check_condition t = Inr True)" by auto
qed

theorem phase2_stops_iff_check_condition_witness:
  "check_condition [[- 1, - 5]] = Inr True
   \<and> phase2_loop (Suc 0) [[- 1, - 5]] [0] [] [] 1 = Some (Inr ([[- 1, - 5]], [0], [], []))"
proof -
  have c: "check_condition [[- 1, - 5]] = Inr True"
    using phase2_stops_iff_check_condition[of "[- 1, - 5]" "[]"] by simp
  with phase2_stops_iff_check_condition[of _ _ "[[- 1, - 5]]" 0 "[0]" "[]" "[]" 1]
  show ?thesis by blast
qed

text \<open>
  The objective row \<open>[-1, 5]\<close> satisfies the condition with the right-hand side
  excluded, and \<open>check_condition\<close> returns False on it.
\<close>

theorem check_condition_counterexample:
  "optimality_condition [[- 1, 5]] \<and> check_condition [[- 1, 5]] = Inr False"
  by (simp add: optimality_condition_def check_condition_def)


section \<open>Key row of the Gomory step\<close>





section \<open>The Gomory cut\<close>

lemma ibl_length: "length (insert_before_last v xs) = length xs + 1"
  by (simp add: insert_before_last_def)

lemma ibl_nth_new: "xs \<noteq> [] \<Longrightarrow> insert_before_last v xs ! (length xs - 1) = v"
  by (simp add: insert_before_last_def nth_append)

lemma ibl_last: "xs \<noteq> [] \<Longrightarrow> last (insert_before_last v xs) = last xs"
  by (simp add: insert_before_last_def)

lemma ibl_nth_last: "xs \<noteq> [] \<Longrightarrow> insert_before_last v xs ! length xs = last xs"
  by (cases xs rule: rev_cases) (simp_all add: insert_before_last_def nth_append)

lemma nth_Cons_diff: "k < j \<Longrightarrow> (a # src) ! (j - k) = src ! (j - Suc k)"
proof -
  assume "k < j"
  then have "j - k = Suc (j - Suc k)" by simp
  then show ?thesis by simp
qed

lemma find_max_fractional_loop_range:
  "find_max_fractional_loop t is m = Inr r \<Longrightarrow> r = m \<or> r \<in> set is"
proof (induction "is" arbitrary: m)
  case Nil
  then show ?case by simp
next
  case (Cons i rest)
  from Cons.prems obtain m' where "find_max_fractional_loop t rest m' = Inr r" and "m' = i \<or> m' = m"
    by (auto simp: ebind_def split: if_splits sum.splits)
  with Cons.IH[of m'] show ?case by auto
qed

lemma find_max_fractional_index_range:
  assumes "find_max_fractional_index t = Inr r" and "2 \<le> length t"
  shows "1 \<le> r \<and> r < length t"
  using find_max_fractional_loop_range[OF assms(1)[unfolded find_max_fractional_index_def]] assms(2)
  by auto

lemma clip_row_char:
  "k + length src \<le> length row \<Longrightarrow>
   \<exists>row'. clip_row (enumerate k src) row = Inr row' \<and> length row' = length row
     \<and> (\<forall>j < length row. row' ! j =
           (if k \<le> j \<and> j < k + length src \<and> src ! (j - k) \<noteq> 0
            then cut_entry (src ! (j - k)) else row ! j))"
proof (induction src arbitrary: k row)
  case Nil
  then show ?case by simp
next
  case (Cons a src)
  show ?case
  proof (cases "a = 0")
    case True
    from Cons.IH[of "Suc k" row] Cons.prems
    obtain row' where r: "clip_row (enumerate (Suc k) src) row = Inr row'"
      and l: "length row' = length row"
      and c: "\<forall>j < length row. row' ! j =
           (if Suc k \<le> j \<and> j < Suc k + length src \<and> src ! (j - Suc k) \<noteq> 0
            then cut_entry (src ! (j - Suc k)) else row ! j)" by auto
    have "\<forall>j < length row. row' ! j =
           (if k \<le> j \<and> j < k + length (a # src) \<and> (a # src) ! (j - k) \<noteq> 0
            then cut_entry ((a # src) ! (j - k)) else row ! j)"
    proof (intro allI impI)
      fix j assume j: "j < length row"
      show "row' ! j = (if k \<le> j \<and> j < k + length (a # src) \<and> (a # src) ! (j - k) \<noteq> 0
            then cut_entry ((a # src) ! (j - k)) else row ! j)"
      proof (cases "j = k")
        case jk: True
        then show ?thesis using c j True by simp
      next
        case False
        then have "(a # src) ! (j - k) = src ! (j - Suc k) \<or> j < k"
          using nth_Cons_diff[of k j a src] by linarith
        then show ?thesis using c j False by (auto simp: less_Suc_eq_le)
      qed
    qed
    with r l True show ?thesis by simp
  next
    case False
    let ?row1 = "row[k := cut_entry a]"
    from Cons.IH[of "Suc k" ?row1] Cons.prems
    obtain row' where r: "clip_row (enumerate (Suc k) src) ?row1 = Inr row'"
      and l: "length row' = length row"
      and c: "\<forall>j < length row. row' ! j =
           (if Suc k \<le> j \<and> j < Suc k + length src \<and> src ! (j - Suc k) \<noteq> 0
            then cut_entry (src ! (j - Suc k)) else ?row1 ! j)" by auto
    have e: "clip_row (enumerate k (a # src)) row = Inr row'"
      using r False Cons.prems by (simp add: set_nat_def ebind_def)
    have "\<forall>j < length row. row' ! j =
           (if k \<le> j \<and> j < k + length (a # src) \<and> (a # src) ! (j - k) \<noteq> 0
            then cut_entry ((a # src) ! (j - k)) else row ! j)"
    proof (intro allI impI)
      fix j assume j: "j < length row"
      show "row' ! j = (if k \<le> j \<and> j < k + length (a # src) \<and> (a # src) ! (j - k) \<noteq> 0
            then cut_entry ((a # src) ! (j - k)) else row ! j)"
      proof (cases "j = k")
        case jk: True
        then show ?thesis using c j False by simp
      next
        case jk: False
        then have "(a # src) ! (j - k) = src ! (j - Suc k) \<or> j < k"
          using nth_Cons_diff[of k j a src] by linarith
        then show ?thesis using c j jk by (auto simp: less_Suc_eq_le)
      qed
    qed
    with e l show ?thesis by simp
  qed
qed

lemma cut_entry_facts:
  "0 < snd (quotient_of a) \<and> 0 \<le> fst (quotient_of a) mod snd (quotient_of a)
   \<and> cut_entry a = of_int (- (fst (quotient_of a) mod snd (quotient_of a))) / of_int (snd (quotient_of a))
   \<and> cut_entry a \<le> 0"
proof -
  obtain p q where pq: "quotient_of a = (p, q)" by (cases "quotient_of a")
  then have q: "0 < q" by (rule quotient_of_denom_pos)
  then have m: "0 \<le> p mod q" by simp
  have c: "cut_entry a = of_int (- (p mod q)) / of_int q" by (simp add: cut_entry_def pq)
  have "(of_int (- (p mod q)) :: rat) \<le> 0" using m by simp
  moreover have "(0 :: rat) < of_int q" using q by simp
  ultimately have "(of_int (- (p mod q)) :: rat) / of_int q \<le> 0"
    by (rule divide_nonpos_pos)
  with pq q m c show ?thesis by simp
qed

text \<open>
  C8. On a rectangular tableau with at least one constraint row and at least one
  column, whenever the source row \<open>r\<close> is found, \<open>add_clipping\<close> returns; the old rows
  get a 0 inserted before their right-hand side and the new row is appended; at each
  column where the source row (after the insertion) is not zero the new row holds
  \<open>-(numerator mod denominator) / denominator\<close> of that entry, with a positive
  denominator and a non-negative remainder; the new column holds 1 in the new row
  and 0 in every other row; and the right-hand side of the new row is at most 0.
\<close>

theorem add_clipping_cut_row:
  assumes "rect t" and "2 \<le> length t" and "hd t \<noteq> []"
    and "find_max_fractional_index t = Inr r"
  shows "\<exists>t'. add_clipping t bv = Inr (t', bv @ [length t])
     \<and> 1 \<le> r \<and> r < length t \<and> length t' = length t + 1
     \<and> (\<forall>i < length t. t' ! i = insert_before_last 0 (t ! i))
     \<and> (\<forall>j < length (hd t) + 1. t' ! r ! j \<noteq> 0
           \<longrightarrow> t' ! length t ! j = of_int (- (fst (quotient_of (t' ! r ! j)) mod snd (quotient_of (t' ! r ! j))))
                                      / of_int (snd (quotient_of (t' ! r ! j)))
               \<and> 0 < snd (quotient_of (t' ! r ! j))
               \<and> 0 \<le> fst (quotient_of (t' ! r ! j)) mod snd (quotient_of (t' ! r ! j)))
     \<and> t' ! length t ! (length (hd t) - 1) = 1
     \<and> (\<forall>i < length t. t' ! i ! (length (hd t) - 1) = 0)
     \<and> last (t' ! length t) \<le> 0"
proof -
  let ?n = "length (hd t)"
  obtain F rest where t: "t = F # rest" using assms(2) by (cases t) auto
  have n0: "0 < ?n" using assms(3) by simp
  have rr: "1 \<le> r \<and> r < length t" using find_max_fractional_index_range[OF assms(4,2)] .
  have len: "\<And>i. i < length t \<Longrightarrow> length (t ! i) = ?n"
    using assms(1) by (simp add: rect_def list_all_length)
  let ?row0 = "insert_before_last 1 (replicate ?n (0::rat))"
  let ?old = "map (insert_before_last 0) t"
  let ?t1 = "?old @ [?row0]"
  let ?src = "insert_before_last 0 (t ! r)"
  have src: "?t1 ! r = ?src" using rr by (simp add: nth_append)
  have ls: "length ?src = ?n + 1" using len rr by (simp add: ibl_length)
  have l0: "length ?row0 = ?n + 1" by (simp add: ibl_length)
  from clip_row_char[of 0 ?src ?row0] ls l0
  obtain row' where cr: "clip_row (enumerate 0 ?src) ?row0 = Inr row'"
    and lr: "length row' = ?n + 1"
    and ch: "\<forall>j < ?n + 1. row' ! j = (if ?src ! j \<noteq> 0 then cut_entry (?src ! j) else ?row0 ! j)"
    by auto
  let ?t' = "?old @ [row']"
  have at: "add_clipping_at r t bv = Inr (?t', bv @ [length t])"
    using rr cr src unfolding t add_clipping_at_def
    by (simp add: Let_def ebind_def del: enumerate_simps)
  have ac: "add_clipping t bv = Inr (?t', bv @ [length t])"
    using at assms(4) by (simp add: add_clipping_def ebind_def)
  have old: "\<forall>i < length t. ?t' ! i = insert_before_last 0 (t ! i)"
    by (simp add: nth_append)
  have new: "?t' ! length t = row'" by (simp add: nth_append)
  have sr: "?t' ! r = ?src" using rr by (simp add: nth_append)
  have tne: "\<And>i. i < length t \<Longrightarrow> t ! i \<noteq> []" using len n0 by fastforce
  have col: "\<forall>i < length t. ?t' ! i ! (?n - 1) = 0"
  proof (intro allI impI)
    fix i assume i: "i < length t"
    have "insert_before_last 0 (t ! i) ! (length (t ! i) - 1) = 0"
      using tne[OF i] by (rule ibl_nth_new)
    then show "?t' ! i ! (?n - 1) = 0" using i len[OF i] by (simp add: nth_append)
  qed
  have s0: "?src ! (?n - 1) = 0" using col[rule_format, of r] rr sr by simp
  have rne: "replicate ?n (0::rat) \<noteq> []" using n0 by simp
  have r1: "?row0 ! (?n - 1) = 1" using ibl_nth_new[OF rne, of 1] by simp
  have one: "row' ! (?n - 1) = 1" using ch s0 r1 n0 by simp
  have r2: "?row0 ! ?n = 0" using ibl_nth_last[OF rne, of 1] n0 by simp
  have "row' ! ?n \<le> 0" using ch r2 cut_entry_facts[of "?src ! ?n"] by simp
  moreover have "row' \<noteq> []" using lr by auto
  then have "last row' = row' ! ?n" using lr by (simp add: last_conv_nth)
  ultimately have rhs: "last row' \<le> 0" by simp
  have ent: "\<forall>j < ?n + 1. ?src ! j \<noteq> 0
           \<longrightarrow> row' ! j = of_int (- (fst (quotient_of (?src ! j)) mod snd (quotient_of (?src ! j))))
                                      / of_int (snd (quotient_of (?src ! j)))
               \<and> 0 < snd (quotient_of (?src ! j))
               \<and> 0 \<le> fst (quotient_of (?src ! j)) mod snd (quotient_of (?src ! j))"
    using ch cut_entry_facts by simp
  show ?thesis
    apply (rule exI[of _ ?t'])
    unfolding new sr
    using ac rr old col one rhs ent by simp
qed


theorem add_clipping_cut_row_witness:
  "\<exists>t'. add_clipping [[0, 0, - (8 / 9), - (14 / 9), - (376 / 9)],
                       [0, 1, 2 / 9, - (1 / 9), 22 / 9],
                       [1, 0, - (1 / 18), 5 / 18, 61 / 18]] [0, 1, 0] = Inr (t', [0, 1, 0, 3])
     \<and> t' ! 3 ! 4 = 1 \<and> t' ! 0 ! 4 = 0 \<and> last (t' ! 3) \<le> 0"
proof -
  let ?T = "[[0, 0, - (8 / 9), - (14 / 9), - (376 / 9)],
             [0, 1, 2 / 9, - (1 / 9), 22 / 9],
             [1, 0, - (1 / 18), 5 / 18, 61 / 18 :: rat]]"
  have 1: "rect ?T" by (simp add: rect_def)
  have 2: "2 \<le> length ?T" by simp
  have 3: "hd ?T \<noteq> []" by simp
  have 4: "find_max_fractional_index ?T = Inr 1" by code_simp
  from add_clipping_cut_row[OF 1 2 3 4, of "[0, 1, 0]"]
  obtain t' where a: "add_clipping ?T [0, 1, 0] = Inr (t', [0, 1, 0] @ [length ?T])"
    and b: "t' ! length ?T ! (length (hd ?T) - 1) = 1"
    and c: "\<forall>i < length ?T. t' ! i ! (length (hd ?T) - 1) = 0"
    and d: "last (t' ! length ?T) \<le> 0"
    by blast
  from c[rule_format, of 0] have "t' ! 0 ! 4 = 0" by (simp add: eval_nat_numeral)
  with a b d show ?thesis by (auto simp: eval_nat_numeral)
qed

section \<open>Evaluations at concrete inputs\<close>

text \<open>
  C2 (the code departs from the claim). For \<open>'1x_1 >= 5'\<close> the counting loop counts
  one slack variable and no artificial variable: the tableau has 3 columns, there is
  no column for the artificial variable (its coefficient is written into the last
  column and overwritten by the right-hand side), although the row is recorded in
  \<open>r_rows\<close>. For \<open>'1x_1 <= 5'\<close> it counts an artificial variable as well: 4 columns,
  one of them never used. With two \<open>>=\<close> constraints the second artificial coefficient
  is written past the end of the row.
\<close>

theorem construct_ge_has_no_artificial_column:
  "construct_simplex_table [''1x_1 >= 5''] 1 = Inr ([[0, 0, 0], [1, - 1, 5]], [1], 1, 0)
   \<and> construct_simplex_table [''1x_1 <= 5''] 1 = Inr ([[0, 0, 0, 0], [1, 1, 0, 5]], [], 1, 1)
   \<and> construct_simplex_table [''1x_1 >= 1'', ''1x_1 >= 2''] 1 = Inl IndexError"
  by code_simp

lemma infeasible_construct:
  "construct_simplex_table [''1x_1 >= 5'', ''1x_1 <= 2''] 1
     = Inr ([[0, 0, 0, 0, 0], [1, - 1, 0, 1, 5], [1, 0, 1, 0, 2]], [1], 2, 1)"
  by code_simp

lemma infeasible_phase1:
  "phase1 [[0, 0, 0, 0, 0], [1, - 1, 0, 1, 5], [1, 0, 1, 0, 2]] [0, 0, 0] [1] 1 2
     = Inl TypeError"
  by code_simp

text \<open>
  C5 (the code departs from the claim). On the constraints \<open>x_1 >= 5\<close> and \<open>x_1 <= 2\<close>
  the objective row of phase 1 is not optimal, the pivot loop of \<open>phase1\<close> is entered
  and its first statement raises \<open>TypeError\<close>, whatever the objective.
\<close>

theorem infeasible_example_raises_TypeError:
  "simplex_solve fuel 1 [''1x_1 >= 5'', ''1x_1 <= 2''] objective_function = Some (Inl TypeError)
   \<and> gomory_solve fuel 1 [''1x_1 >= 5'', ''1x_1 <= 2''] objective_function = Some (Inl TypeError)"
proof -
  have "simplex_prepare 1 [''1x_1 >= 5'', ''1x_1 <= 2''] objective_function = Inl TypeError"
    unfolding simplex_prepare_def infeasible_construct using infeasible_phase1
    by (simp add: ebind_def)
  then have "simplex_solve fuel 1 [''1x_1 >= 5'', ''1x_1 <= 2''] objective_function = Some (Inl TypeError)"
    by (simp add: simplex_solve_def)
  then show ?thesis by (simp add: gomory_solve_def)
qed

section \<open>The run of the example\<close>

lemma ex_prepare:
  "simplex_prepare 2 example_constraints example_objective = Inr (example_T0, [0, 2, 3])"
  by code_simp

lemma ex_check0: "check_condition example_T0 = Inr False" by code_simp
lemma ex_check1: "check_condition example_T1 = Inr False" by code_simp
lemma ex_check2: "check_condition example_T2 = Inr True" by code_simp

lemma ex_pivot0:
  "ebind (find_key_column example_T0)
     (\<lambda>key_column. ebind (find_key_row example_T0 key_column)
        (\<lambda>(key_row, _). simplex_step example_T0 [0, 2, 3] key_column key_row))
   = Inr (example_T1, [0, 2, 0])"
  by code_simp

lemma ex_pivot1:
  "ebind (find_key_column example_T1)
     (\<lambda>key_column. ebind (find_key_row example_T1 key_column)
        (\<lambda>(key_row, _). simplex_step example_T1 [0, 2, 0] key_column key_row))
   = Inr (example_T2, [0, 1, 0])"
  by code_simp

lemma ex_phase2:
  "phase2_loop (Suc (Suc (Suc n))) example_T0 [0, 2, 3] h bh 1
   = Some (Inr (example_T2, [0, 1, 0],
        h @ [(Simplex_method_step 1, example_T1), (Simplex_method_step 2, example_T2)],
        bh @ [(Simplex_method_step 1, [0, 2, 0]), (Simplex_method_step 2, [0, 1, 0])]))"
  by (simp add: ex_check0 ex_check1 ex_check2 ex_pivot0 ex_pivot1)

lemma ex_finish:
  "simplex_finish 2 (example_T2, [0, 1, 0], h, bh)
   = Inr (- (376 / 9), [(2, 22 / 9), (1, 61 / 18)], h, bh)"
  by code_simp

lemma ex_simplex:
  "simplex_solve (Suc (Suc (Suc n))) 2 example_constraints example_objective
   = Some (Inr (- (376 / 9), [(2, 22 / 9), (1, 61 / 18)],
        [(Initial_Simplex_method, example_T0), (Simplex_method_step 1, example_T1),
         (Simplex_method_step 2, example_T2)],
        [(Initial_Simplex_method, [0, 2, 3]), (Simplex_method_step 1, [0, 2, 0]),
         (Simplex_method_step 2, [0, 1, 0])]))"
  unfolding simplex_solve_def ex_prepare
  by (simp add: ex_phase2 ex_finish del: phase2_loop.simps One_nat_def)

lemma ex_int0: "check_integer_condition example_T2 = Inr False" by code_simp

lemma ex_cut0:
  "ebind (add_clipping example_T2 [0, 1, 0])
     (\<lambda>(t1, basic_vars1). ebind (get_key_row t1)
        (\<lambda>key_row. ebind (get_key_column t1 key_row)
           (\<lambda>key_column. simplex_step t1 basic_vars1 key_column key_row)))
   = Inr (example_G1, [0, 1, 0, 3])"
  by code_simp

lemma ex_int1: "check_integer_condition example_G1 = Inr False" by code_simp

lemma ex_cut1:
  "ebind (add_clipping example_G1 [0, 1, 0, 3])
     (\<lambda>(t1, basic_vars1). ebind (get_key_row t1)
        (\<lambda>key_row. ebind (get_key_column t1 key_row)
           (\<lambda>key_column. simplex_step t1 basic_vars1 key_column key_row)))
   = Inr (example_G2, [0, 1, 0, 3, 4])"
  by code_simp

lemma ex_int2: "check_integer_condition example_G2 = Inr False" by code_simp

lemma ex_cut2:
  "ebind (add_clipping example_G2 [0, 1, 0, 3, 4])
     (\<lambda>(t1, basic_vars1). ebind (get_key_row t1)
        (\<lambda>key_row. ebind (get_key_column t1 key_row)
           (\<lambda>key_column. simplex_step t1 basic_vars1 key_column key_row)))
   = Inr (example_G3, [0, 1, 0, 3, 4, 2])"
  by code_simp

lemma ex_int3: "check_integer_condition example_G3 = Inr False" by code_simp

lemma ex_cut3:
  "ebind (add_clipping example_G3 [0, 1, 0, 3, 4, 2])
     (\<lambda>(t1, basic_vars1). ebind (get_key_row t1)
        (\<lambda>key_row. ebind (get_key_column t1 key_row)
           (\<lambda>key_column. simplex_step t1 basic_vars1 key_column key_row)))
   = Inr (example_G4, [0, 1, 0, 3, 4, 2, 6])"
  by code_simp

lemma ex_int4: "check_integer_condition example_G4 = Inr False" by code_simp

lemma ex_cut4:
  "ebind (add_clipping example_G4 [0, 1, 0, 3, 4, 2, 6])
     (\<lambda>(t1, basic_vars1). ebind (get_key_row t1)
        (\<lambda>key_row. ebind (get_key_column t1 key_row)
           (\<lambda>key_column. simplex_step t1 basic_vars1 key_column key_row)))
   = Inr (example_G5, [0, 1, 0, 5, 4, 2, 6, 7])"
  by code_simp

lemma ex_int5: "check_integer_condition example_G5 = Inr False" by code_simp

lemma ex_cut5:
  "ebind (add_clipping example_G5 [0, 1, 0, 5, 4, 2, 6, 7])
     (\<lambda>(t1, basic_vars1). ebind (get_key_row t1)
        (\<lambda>key_row. ebind (get_key_column t1 key_row)
           (\<lambda>key_column. simplex_step t1 basic_vars1 key_column key_row)))
   = Inr (example_G6, [0, 1, 0, 5, 4, 2, 6, 7, 3])"
  by code_simp

lemma ex_int6: "check_integer_condition example_G6 = Inr True" by code_simp


lemma ex_gomory_loop:
  "gomory_loop (Suc (Suc (Suc (Suc (Suc (Suc (Suc n))))))) example_T2 [0, 1, 0] h bh 1
   = Some (Inr (example_G6, [0, 1, 0, 5, 4, 2, 6, 7, 3],
        h @ [(Gomory_method_step 1, example_G1), (Gomory_method_step 2, example_G2),
             (Gomory_method_step 3, example_G3), (Gomory_method_step 4, example_G4),
             (Gomory_method_step 5, example_G5), (Gomory_method_step 6, example_G6)],
        bh @ [(Gomory_method_step 1, [0, 1, 0, 3]), (Gomory_method_step 2, [0, 1, 0, 3, 4]),
              (Gomory_method_step 3, [0, 1, 0, 3, 4, 2]),
              (Gomory_method_step 4, [0, 1, 0, 3, 4, 2, 6]),
              (Gomory_method_step 5, [0, 1, 0, 5, 4, 2, 6, 7]),
              (Gomory_method_step 6, [0, 1, 0, 5, 4, 2, 6, 7, 3])]))"
  by (simp add: ex_int0 ex_int1 ex_int2 ex_int3 ex_int4 ex_int5 ex_int6
        ex_cut0 ex_cut1 ex_cut2 ex_cut3 ex_cut4 ex_cut5 del: One_nat_def)

lemma ex_gomory_finish:
  "gomory_finish 2 k kb (example_G6, [0, 1, 0, 5, 4, 2, 6, 7, 3], h, bh)
     = Inr (Four (- 36) [(2, 2), (1, 3)]
              (h[k := (fst (h ! k), example_G6)])
              (bh[kb := (fst (bh ! kb), [0, 1, 0, 5, 4, 2, 6, 7, 3])]))"
  by code_simp

lemma ex_gomory:
  "\<exists>h bh. gomory_solve (Suc (Suc (Suc (Suc (Suc (Suc (Suc n))))))) 2 example_constraints example_objective
     = Some (Inr (Four (- 36) [(2, 2), (1, 3)] h bh))"
  unfolding gomory_solve_def ex_simplex
  by (simp add: ex_int0 ex_gomory_loop ex_gomory_finish Let_def
        del: gomory_loop.simps One_nat_def)

text \<open>
  C1 (as amended). On the input of \<open>main.py\<close> the simplex solve ends at
  \<open>x_1 = 61/18\<close>, \<open>x_2 = 22/9\<close>, where the objective is \<open>376/9\<close>; the final table of
  the relaxation is not integral, so the Gomory extension runs, and \<open>gomory_solve\<close>
  returns a 4-tuple with the integer solution \<open>x_1 = 3\<close>, \<open>x_2 = 2\<close>, where the
  objective is \<open>36\<close>, after six cuts. The two optimum values are stated by their
  magnitude: the sign with which a maximisation returns them is left out.
\<close>

theorem main_example_results:
  "map_option abs (solve_optimum (simplex_solve 3 2 example_constraints example_objective))
     = Some (376 / 9)
   \<and> solve_value (simplex_solve 3 2 example_constraints example_objective) 1 = Some (61 / 18)
   \<and> solve_value (simplex_solve 3 2 example_constraints example_objective) 2 = Some (22 / 9)
   \<and> check_integer_condition example_T2 = Inr False
   \<and> is_Four (gomory_solve 7 2 example_constraints example_objective)
   \<and> map_option abs (gomory_optimum (gomory_solve 7 2 example_constraints example_objective))
     = Some 36
   \<and> gomory_value (gomory_solve 7 2 example_constraints example_objective) 1 = Some 3
   \<and> gomory_value (gomory_solve 7 2 example_constraints example_objective) 2 = Some 2"
proof -
  have 3: "(3::nat) = Suc (Suc (Suc 0))" by simp
  have 7: "(7::nat) = Suc (Suc (Suc (Suc (Suc (Suc (Suc 0))))))" by simp
  from ex_gomory[of 0] obtain h bh where
    g: "gomory_solve 7 2 example_constraints example_objective
          = Some (Inr (Four (- 36) [(2, 2), (1, 3)] h bh))"
    unfolding 7[symmetric] by blast
  have s: "simplex_solve 3 2 example_constraints example_objective
     = Some (Inr (- (376 / 9), [(2, 22 / 9), (1, 61 / 18)],
        [(Initial_Simplex_method, example_T0), (Simplex_method_step 1, example_T1),
         (Simplex_method_step 2, example_T2)],
        [(Initial_Simplex_method, [0, 2, 3]), (Simplex_method_step 1, [0, 2, 0]),
         (Simplex_method_step 2, [0, 1, 0])]))"
    using ex_simplex[of 0] unfolding 3[symmetric] .
  show ?thesis
    unfolding g s
    by (simp add: solve_optimum_def solve_value_def gomory_optimum_def gomory_value_def
          is_Four_def ex_int0)
qed

text \<open>
  The values of the claim as stated (\<open>136/5\<close> at \<open>16/5\<close>, \<open>11/5\<close>, then \<open>32\<close> at
  \<open>4\<close>, \<open>0\<close>) are not what the solve returns, whatever the sign of the optimum.
\<close>

theorem main_example_counterexample:
  "map_option abs (solve_optimum (simplex_solve 3 2 example_constraints example_objective))
     \<noteq> Some (136 / 5)
   \<and> solve_value (simplex_solve 3 2 example_constraints example_objective) 1 \<noteq> Some (16 / 5)
   \<and> solve_value (simplex_solve 3 2 example_constraints example_objective) 2 \<noteq> Some (11 / 5)
   \<and> map_option abs (gomory_optimum (gomory_solve 7 2 example_constraints example_objective))
     \<noteq> Some 32
   \<and> gomory_value (gomory_solve 7 2 example_constraints example_objective) 1 \<noteq> Some 4
   \<and> gomory_value (gomory_solve 7 2 example_constraints example_objective) 2 \<noteq> Some 0"
proof -
  have 3: "(3::nat) = Suc (Suc (Suc 0))" by simp
  have 7: "(7::nat) = Suc (Suc (Suc (Suc (Suc (Suc (Suc 0))))))" by simp
  from ex_gomory[of 0] obtain h bh where
    g: "gomory_solve 7 2 example_constraints example_objective
          = Some (Inr (Four (- 36) [(2, 2), (1, 3)] h bh))"
    unfolding 7[symmetric] by blast
  have s: "simplex_solve 3 2 example_constraints example_objective
     = Some (Inr (- (376 / 9), [(2, 22 / 9), (1, 61 / 18)],
        [(Initial_Simplex_method, example_T0), (Simplex_method_step 1, example_T1),
         (Simplex_method_step 2, example_T2)],
        [(Initial_Simplex_method, [0, 2, 3]), (Simplex_method_step 1, [0, 2, 0]),
         (Simplex_method_step 2, [0, 1, 0])]))"
    using ex_simplex[of 0] unfolding 3[symmetric] .
  show ?thesis
    unfolding g s
    by (simp add: solve_optimum_def solve_value_def gomory_optimum_def gomory_value_def)
qed

text \<open>
  C4 (the code departs from the claim). On \<open>minimize x_1 - x_2\<close> under
  \<open>x_1 + 2 x_2 \<le> 4\<close> and \<open>3 x_1 + x_2 \<le> 6\<close> both versions return, with different
  solutions: the functional version gives \<open>x_1 = 0\<close>, the object-oriented one
  \<open>x_1 = 4\<close> (its basic variables are never initialised, so row 2 is read for
  \<open>x_1\<close>). And the two re-normalisations of the objective row do not use the same
  rows: on the same table and basic variables the functional one multiplies rows 0
  and 1, the object-oriented one rows 1 and 2.
\<close>

theorem implementations_disagree:
  "gomory_solve 2 2 [''1x_1 + 2x_2 <= 4'', ''3x_1 + 1x_2 <= 6''] (''minimize'', ''1x_1 - 1x_2'')
     = Some (Inr (Two (- 2) [(2, 2), (1, 0)]))
   \<and> GomoryMethod_run 2 2 [''1x_1 + 2x_2 <= 4'', ''3x_1 + 1x_2 <= 6''] (''minimize'', ''1x_1 - 1x_2'')
     = Some (Inr (- 2, [(2, 2), (1, 4)]))
   \<and> renormalize (enumerate 0 (tl [0, 0, 0])) example_T0
     = Inr [[56, 238, 56, 0, 1064], [2, 5, 1, 0, 19], [4, 1, 0, 1, 16]]
   \<and> SimplexMethod_renormalize (enumerate 0 (tl [0, 0, 0])) example_T0
     = Inr [[24, - 26, - 8, 8, - 24], [2, 5, 1, 0, 19], [4, 1, 0, 1, 16]]"
  by code_simp

section \<open>The shape of the result of gomory\_solve\<close>

lemma phase2_loop_last:
  "phase2_loop fuel t bv h bh step = Some (Inr (t', bv', h', bh')) \<Longrightarrow>
   h \<noteq> [] \<Longrightarrow> snd (last h) = t \<Longrightarrow> bh \<noteq> [] \<Longrightarrow> snd (last bh) = bv \<Longrightarrow>
   h' \<noteq> [] \<and> snd (last h') = t' \<and> bh' \<noteq> [] \<and> snd (last bh') = bv'"
proof (induction fuel arbitrary: t bv h bh step)
  case 0
  then show ?case by simp
next
  case (Suc fuel)
  show ?case
  proof (cases "check_condition t")
    case (Inl e)
    with Suc.prems show ?thesis by simp
  next
    case (Inr c)
    show ?thesis
    proof (cases c)
      case True
      with Inr Suc.prems show ?thesis by simp
    next
      case False
      let ?s = "ebind (find_key_column t)
                  (\<lambda>key_column. ebind (find_key_row t key_column)
                    (\<lambda>(key_row, _). simplex_step t bv key_column key_row))"
      from Suc.prems(1) Inr False obtain t1 bv1 where s: "?s = Inr (t1, bv1)"
        and r: "phase2_loop fuel t1 bv1 (h @ [(Simplex_method_step step, t1)])
                  (bh @ [(Simplex_method_step step, bv1)]) (step + 1) = Some (Inr (t', bv', h', bh'))"
        by (cases ?s) auto
      from Suc.IH[OF r] show ?thesis by simp
    qed
  qed
qed

lemma simplex_solve_history:
  assumes "simplex_solve fuel n cs obj = Some (Inr (v, sol, h, bh))"
  shows "h \<noteq> [] \<and> bh \<noteq> [] \<and> snd (last h) \<noteq> [] \<and> hd (snd (last h)) \<noteq> []
         \<and> v = last (hd (snd (last h)))"
proof -
  from assms obtain t0 bv0 where p: "simplex_prepare n cs obj = Inr (t0, bv0)"
    by (cases "simplex_prepare n cs obj") (auto simp: simplex_solve_def)
  from assms p obtain r where l: "phase2_loop fuel t0 bv0 [(Initial_Simplex_method, t0)]
           [(Initial_Simplex_method, bv0)] 1 = Some (Inr r)"
    and f: "simplex_finish n r = Inr (v, sol, h, bh)"
    by (auto simp: simplex_solve_def split: option.splits sum.splits)
  obtain t' bv' h' bh' where r: "r = (t', bv', h', bh')" by (cases r) auto
  from phase2_loop_last[OF l[unfolded r]]
  have hl: "h' \<noteq> [] \<and> snd (last h') = t' \<and> bh' \<noteq> []" by simp
  from f r obtain F rest where t': "t' = F # rest" and F: "F \<noteq> []"
    and e: "v = last F" "h = h'" "bh = bh'"
    by (auto simp: simplex_finish_def ebind_def split: list.splits if_splits sum.splits)
  with hl show ?thesis by simp
qed

lemma ex_small_solve:
  "simplex_solve 2 1 [''1x_1 <= 2''] (''maximize'', ''1x_1'')
     = Some (Inr (- 2, [(1, 2)],
         [(Initial_Simplex_method, [[1, 0, 0], [1, 1, 2]]),
          (Simplex_method_step 1, [[0, - 1, - 2], [1, 1, 2]])],
         [(Initial_Simplex_method, [0, 1]), (Simplex_method_step 1, [0, 0])]))"
  by code_simp


lemma gomory_loop_result:
  "gomory_loop fuel t bv h bh step = Some (Inr (t', bv', h', bh')) \<Longrightarrow>
     check_integer_condition t' = Inr True
     \<and> (check_integer_condition t = Inr True \<longrightarrow> t' = t \<and> bv' = bv \<and> h' = h \<and> bh' = bh)
     \<and> (check_integer_condition t \<noteq> Inr True \<longrightarrow>
           length h < length h' \<and> length bh < length bh'
           \<and> last h' = (Gomory_method_step (step + (length h' - length h) - 1), t')
           \<and> last bh' = (Gomory_method_step (step + (length bh' - length bh) - 1), bv'))
     \<and> take (length h) h' = h \<and> take (length bh) bh' = bh"
proof (induction fuel arbitrary: t bv h bh step)
  case 0
  then show ?case by simp
next
  case (Suc fuel)
  show ?case
  proof (cases "check_integer_condition t")
    case (Inl e)
    with Suc.prems show ?thesis by simp
  next
    case (Inr c)
    show ?thesis
    proof (cases c)
      case True
      with Inr Suc.prems show ?thesis by simp
    next
      case False
      let ?s = "ebind (add_clipping t bv)
                  (\<lambda>(t1, basic_vars1). ebind (get_key_row t1)
                    (\<lambda>key_row. ebind (get_key_column t1 key_row)
                      (\<lambda>key_column. simplex_step t1 basic_vars1 key_column key_row)))"
      let ?h1 = "h @ [(Gomory_method_step step, fst (projr ?s))]"
      from Suc.prems Inr False obtain t1 bv1 where s: "?s = Inr (t1, bv1)"
        and r: "gomory_loop fuel t1 bv1 (h @ [(Gomory_method_step step, t1)])
                  (bh @ [(Gomory_method_step step, bv1)]) (step + 1) = Some (Inr (t', bv', h', bh'))"
        by (cases ?s) auto
      note ih = Suc.IH[OF r]
      have c': "check_integer_condition t' = Inr True" using ih by simp
      have tk: "take (length h + 1) h' = h @ [(Gomory_method_step step, t1)]"
        and tkb: "take (length bh + 1) bh' = bh @ [(Gomory_method_step step, bv1)]"
        using ih by simp_all
      have lh: "length h < length h'"
      proof -
        have "length (take (length h + 1) h') = length h + 1" using tk by simp
        then show ?thesis by simp
      qed
      have lbh: "length bh < length bh'"
      proof -
        have "length (take (length bh + 1) bh') = length bh + 1" using tkb by simp
        then show ?thesis by simp
      qed
      have p: "take (length h) h' = h"
      proof -
        have "take (length h) (take (length h + 1) h') = take (length h) (h @ [(Gomory_method_step step, t1)])"
          using tk by simp
        then show ?thesis by (simp add: min_def)
      qed
      have pb: "take (length bh) bh' = bh"
      proof -
        have "take (length bh) (take (length bh + 1) bh') = take (length bh) (bh @ [(Gomory_method_step step, bv1)])"
          using tkb by simp
        then show ?thesis by (simp add: min_def)
      qed
      have l: "last h' = (Gomory_method_step (step + (length h' - length h) - 1), t')
             \<and> last bh' = (Gomory_method_step (step + (length bh' - length bh) - 1), bv')"
      proof (cases "check_integer_condition t1 = Inr True")
        case True
        with ih have "h' = h @ [(Gomory_method_step step, t1)]" "t' = t1"
          "bh' = bh @ [(Gomory_method_step step, bv1)]" "bv' = bv1" by simp_all
        then show ?thesis by simp
      next
        case False
        with ih have a: "length h + 1 < length h'" "length bh + 1 < length bh'"
          and b: "last h' = (Gomory_method_step (step + 1 + (length h' - (length h + 1)) - 1), t')"
          and bb: "last bh' = (Gomory_method_step (step + 1 + (length bh' - (length bh + 1)) - 1), bv')"
          by simp_all
        have "step + 1 + (length h' - (length h + 1)) - 1 = step + (length h' - length h) - 1"
          using a by linarith
        moreover have "step + 1 + (length bh' - (length bh + 1)) - 1 = step + (length bh' - length bh) - 1"
          using a by linarith
        ultimately show ?thesis using b bb by simp
      qed
      show ?thesis using c' lh lbh p pb l Inr False by simp
    qed
  qed
qed

text \<open>
  C10 (as amended). Whenever \<open>simplex_solve\<close> returns, with the final table last in
  its history: if that table satisfies the integer condition, \<open>gomory_solve\<close> returns
  the pair of the optimum and the solution of the relaxation, without histories.
  Otherwise it returns no pair: an exception of the cut loop is raised by
  \<open>gomory_solve\<close>, and every value it returns is the 4-tuple built when the cut loop
  ended, on a table that satisfies the integer condition, after the entry
  \<open>Initial Gomory-method\<close> and at least one recorded step. So, among the inputs on
  which \<open>gomory_solve\<close> returns, a caller that unpacks four values fails in the
  unpacking exactly on those whose relaxation is already integral.
\<close>

theorem gomory_solve_result_shape:
  assumes "simplex_solve fuel n cs obj = Some (Inr (v, sol, h, bh))"
  shows "(check_integer_condition (snd (last h)) = Inr True
            \<longrightarrow> gomory_solve fuel n cs obj = Some (Inr (Two v sol)))
       \<and> (check_integer_condition (snd (last h)) \<noteq> Inr True
            \<longrightarrow> (\<forall>r. gomory_solve fuel n cs obj = Some (Inr r)
                  \<longrightarrow> (\<exists>t' bv' h' bh' plane.
                         gomory_loop fuel (snd (last h)) (snd (last bh))
                           (h @ [(Initial_Gomory_method, snd (last h))])
                           (bh @ [(Initial_Gomory_method, snd (last bh))]) 1
                           = Some (Inr (t', bv', h', bh'))
                       \<and> check_integer_condition t' = Inr True
                       \<and> length h + 2 \<le> length h'
                       \<and> take (length h) h' = h
                       \<and> h' ! length h = (Initial_Gomory_method, snd (last h))
                       \<and> last h' = (Gomory_method_step (length h' - length h - 1), t')
                       \<and> create_solution t' bv' n = Inr plane
                       \<and> r = Four (last (hd t')) plane
                               (h'[length h - 1 := (fst (h' ! (length h - 1)), t')])
                               (bh'[length bh - 1 := (fst (bh' ! (length bh - 1)), bv')]))))
       \<and> (check_integer_condition (snd (last h)) = Inr False
            \<longrightarrow> (\<forall>e. gomory_loop fuel (snd (last h)) (snd (last bh))
                           (h @ [(Initial_Gomory_method, snd (last h))])
                           (bh @ [(Initial_Gomory_method, snd (last bh))]) 1 = Some (Inl e)
                  \<longrightarrow> gomory_solve fuel n cs obj = Some (Inl e)))
       \<and> (\<forall>r. gomory_solve fuel n cs obj = Some (Inr r)
            \<longrightarrow> ((main_unpack r = Inl UnpackError)
                  = (check_integer_condition (snd (last h)) = Inr True)))"
proof -
  define t where "t = snd (last h)"
  define bv where "bv = snd (last bh)"
  define h0 where "h0 = h @ [(Initial_Gomory_method, t)]"
  define bh0 where "bh0 = bh @ [(Initial_Gomory_method, bv)]"
  from simplex_solve_history[OF assms]
  have hh: "h \<noteq> []" "bh \<noteq> []" "t \<noteq> []" "hd t \<noteq> []" "v = last (hd t)"
    by (simp_all add: t_def)
  have A: "check_integer_condition t = Inr True
            \<Longrightarrow> gomory_solve fuel n cs obj = Some (Inr (Two v sol))"
    using assms hh by (simp add: gomory_solve_def Let_def t_def)
  have G: "check_integer_condition t = Inr False \<Longrightarrow>
        gomory_solve fuel n cs obj =
          (case gomory_loop fuel t bv h0 bh0 1 of
             None \<Rightarrow> None
           | Some (Inl e) \<Rightarrow> Some (Inl e)
           | Some (Inr r) \<Rightarrow> Some (gomory_finish n (length h - 1) (length bh - 1) r))"
    using assms hh by (simp add: gomory_solve_def Let_def t_def bv_def h0_def bh0_def)
  have E: "\<And>e. check_integer_condition t \<noteq> Inr True \<Longrightarrow> check_integer_condition t \<noteq> Inr False
            \<Longrightarrow> \<exists>e. gomory_solve fuel n cs obj = Some (Inl e)"
    using assms hh
    by (cases "check_integer_condition t")
       (auto simp: gomory_solve_def Let_def t_def)
  have B: "\<And>r. check_integer_condition t \<noteq> Inr True
            \<Longrightarrow> gomory_solve fuel n cs obj = Some (Inr r)
            \<Longrightarrow> \<exists>t' bv' h' bh' plane.
                   gomory_loop fuel t bv h0 bh0 1 = Some (Inr (t', bv', h', bh'))
                 \<and> check_integer_condition t' = Inr True
                 \<and> length h + 2 \<le> length h'
                 \<and> take (length h) h' = h
                 \<and> h' ! length h = (Initial_Gomory_method, t)
                 \<and> last h' = (Gomory_method_step (length h' - length h - 1), t')
                 \<and> create_solution t' bv' n = Inr plane
                 \<and> r = Four (last (hd t')) plane
                         (h'[length h - 1 := (fst (h' ! (length h - 1)), t')])
                         (bh'[length bh - 1 := (fst (bh' ! (length bh - 1)), bv')])"
  proof -
    fix r assume c: "check_integer_condition t \<noteq> Inr True"
      and g: "gomory_solve fuel n cs obj = Some (Inr r)"
    have cf: "check_integer_condition t = Inr False"
    proof (rule ccontr)
      assume "check_integer_condition t \<noteq> Inr False"
      from E[OF c this] g show False by auto
    qed
    from G[OF cf] g obtain q where q: "gomory_loop fuel t bv h0 bh0 1 = Some (Inr q)"
      and f: "gomory_finish n (length h - 1) (length bh - 1) q = Inr r"
      by (auto split: option.splits sum.splits)
    obtain t' bv' h' bh' where qq: "q = (t', bv', h', bh')" by (cases q) auto
    from gomory_loop_result[OF q[unfolded qq]] cf
    have c': "check_integer_condition t' = Inr True"
      and lh: "length h0 < length h'"
      and la: "last h' = (Gomory_method_step (1 + (length h' - length h0) - 1), t')"
      and tk: "take (length h0) h' = h0"
      by simp_all
    have l0: "length h0 = length h + 1" by (simp add: h0_def)
    have 1: "length h + 2 \<le> length h'" using lh l0 by simp
    have 2: "take (length h) h' = h"
    proof -
      have "take (length h) (take (length h0) h') = take (length h) h0" using tk by simp
      then show ?thesis by (simp add: h0_def l0 min_def)
    qed
    have 3: "h' ! length h = (Initial_Gomory_method, t)"
    proof -
      have "take (length h0) h' ! length h = h0 ! length h" using tk by simp
      then show ?thesis by (simp add: h0_def l0)
    qed
    have 4: "last h' = (Gomory_method_step (length h' - length h - 1), t')"
    proof -
      have "1 + (length h' - length h0) - 1 = length h' - length h - 1" using lh l0 by linarith
      with la show ?thesis by simp
    qed
    from f qq obtain plane where pl: "create_solution t' bv' n = Inr plane"
      and rr: "r = Four (last (hd t')) plane
                         (h'[length h - 1 := (fst (h' ! (length h - 1)), t')])
                         (bh'[length bh - 1 := (fst (bh' ! (length bh - 1)), bv')])"
      by (auto simp: gomory_finish_def ebind_def split: list.splits if_splits sum.splits)
    from q qq c' 1 2 3 4 pl rr show "\<exists>t' bv' h' bh' plane.
                   gomory_loop fuel t bv h0 bh0 1 = Some (Inr (t', bv', h', bh'))
                 \<and> check_integer_condition t' = Inr True
                 \<and> length h + 2 \<le> length h'
                 \<and> take (length h) h' = h
                 \<and> h' ! length h = (Initial_Gomory_method, t)
                 \<and> last h' = (Gomory_method_step (length h' - length h - 1), t')
                 \<and> create_solution t' bv' n = Inr plane
                 \<and> r = Four (last (hd t')) plane
                         (h'[length h - 1 := (fst (h' ! (length h - 1)), t')])
                         (bh'[length bh - 1 := (fst (bh' ! (length bh - 1)), bv')])"
      by blast
  qed
  have D: "\<And>e. check_integer_condition t = Inr False
            \<Longrightarrow> gomory_loop fuel t bv h0 bh0 1 = Some (Inl e)
            \<Longrightarrow> gomory_solve fuel n cs obj = Some (Inl e)"
    using G by simp
  have C: "\<And>r. gomory_solve fuel n cs obj = Some (Inr r)
            \<Longrightarrow> (main_unpack r = Inl UnpackError) = (check_integer_condition t = Inr True)"
  proof -
    fix r assume g: "gomory_solve fuel n cs obj = Some (Inr r)"
    show "(main_unpack r = Inl UnpackError) = (check_integer_condition t = Inr True)"
    proof (cases "check_integer_condition t = Inr True")
      case True
      from A[OF True] g have "r = Two v sol" by simp
      with True show ?thesis by (simp add: main_unpack_def)
    next
      case False
      from B[OF False g] obtain a b c d where "r = Four a b c d" by blast
      with False show ?thesis by (simp add: main_unpack_def)
    qed
  qed
  from A B C D show ?thesis unfolding t_def bv_def h0_def bh0_def by blast
qed


theorem gomory_solve_result_shape_witness:
  "gomory_solve 2 1 [''1x_1 <= 2''] (''maximize'', ''1x_1'') = Some (Inr (Two (- 2) [(1, 2)]))
   \<and> main_unpack (Two (- 2) [(1, 2)]) = Inl UnpackError
   \<and> (\<exists>bv' h' bh'. gomory_loop 7 example_T2 [0, 1, 0]
           [(Initial_Simplex_method, example_T0), (Simplex_method_step 1, example_T1),
            (Simplex_method_step 2, example_T2), (Initial_Gomory_method, example_T2)]
           [(Initial_Simplex_method, [0, 2, 3]), (Simplex_method_step 1, [0, 2, 0]),
            (Simplex_method_step 2, [0, 1, 0]), (Initial_Gomory_method, [0, 1, 0])] 1
         = Some (Inr (example_G6, bv', h', bh'))
       \<and> last h' = (Gomory_method_step 6, example_G6))
   \<and> check_integer_condition example_G6 = Inr True"
proof -
  let ?h = "[(Initial_Simplex_method, [[1, 0, 0], [1, 1, 2]]),
             (Simplex_method_step 1, [[0, - 1, - 2], [1, 1, 2 :: rat]])]"
  have c: "check_integer_condition (snd (last ?h)) = Inr True" by code_simp
  from gomory_solve_result_shape[OF ex_small_solve] c
  have g: "gomory_solve 2 1 [''1x_1 <= 2''] (''maximize'', ''1x_1'') = Some (Inr (Two (- 2) [(1, 2)]))"
    and u: "\<forall>r. gomory_solve 2 1 [''1x_1 <= 2''] (''maximize'', ''1x_1'') = Some (Inr r)
            \<longrightarrow> ((main_unpack r = Inl UnpackError) = (check_integer_condition (snd (last ?h)) = Inr True))"
    by blast+
  from u g c have mu: "main_unpack (Two (- 2) [(1, 2)]) = Inl UnpackError" by blast
  let ?H = "[(Initial_Simplex_method, example_T0), (Simplex_method_step 1, example_T1),
             (Simplex_method_step 2, example_T2)]"
  let ?B = "[(Initial_Simplex_method, [0, 2, 3]), (Simplex_method_step 1, [0, 2, 0]),
             (Simplex_method_step 2, [0, 1, 0 :: nat])]"
  have 7: "(7::nat) = Suc (Suc (Suc 4))" by simp
  have s7: "simplex_solve 7 2 example_constraints example_objective
              = Some (Inr (- (376 / 9), [(2, 22 / 9), (1, 61 / 18)], ?H, ?B))"
    unfolding 7 using ex_simplex[of 4] by (simp del: One_nat_def)
  have seven: "(7::nat) = Suc (Suc (Suc (Suc (Suc (Suc (Suc 0))))))" by simp
  from ex_gomory[of 0] obtain gh gbh where
    g7: "gomory_solve 7 2 example_constraints example_objective
          = Some (Inr (Four (- 36) [(2, 2), (1, 3)] gh gbh))"
    unfolding seven[symmetric] by blast
  have n: "check_integer_condition (snd (last ?H)) \<noteq> Inr True" using ex_int0 by simp
  from gomory_solve_result_shape[OF s7] n g7
  obtain t' bv' h' bh' where
    l: "gomory_loop 7 (snd (last ?H)) (snd (last ?B))
          (?H @ [(Initial_Gomory_method, snd (last ?H))])
          (?B @ [(Initial_Gomory_method, snd (last ?B))]) 1 = Some (Inr (t', bv', h', bh'))"
    and ci: "check_integer_condition t' = Inr True"
    and la: "last h' = (Gomory_method_step (length h' - length ?H - 1), t')"
    by blast
  have l': "gomory_loop 7 example_T2 [0, 1, 0]
           [(Initial_Simplex_method, example_T0), (Simplex_method_step 1, example_T1),
            (Simplex_method_step 2, example_T2), (Initial_Gomory_method, example_T2)]
           [(Initial_Simplex_method, [0, 2, 3]), (Simplex_method_step 1, [0, 2, 0]),
            (Simplex_method_step 2, [0, 1, 0]), (Initial_Gomory_method, [0, 1, 0])] 1
         = Some (Inr (t', bv', h', bh'))"
    using l by (simp del: One_nat_def)
  have e: "t' = example_G6" and lh: "length h' = 10"
    using l' ex_gomory_loop[of 0 "[(Initial_Simplex_method, example_T0), (Simplex_method_step 1, example_T1),
            (Simplex_method_step 2, example_T2), (Initial_Gomory_method, example_T2)]"
           "[(Initial_Simplex_method, [0, 2, 3]), (Simplex_method_step 1, [0, 2, 0]),
            (Simplex_method_step 2, [0, 1, 0]), (Initial_Gomory_method, [0, 1, 0])]"]
    unfolding seven[symmetric] by auto
  from la e lh have la': "last h' = (Gomory_method_step 6, example_G6)" by simp
  from l' e la' ci g mu show ?thesis by blast
qed

text \<open>
  On \<open>minimize x_1\<close> under \<open>x_1 \<le> -3\<close> the relaxation returns a table that is not
  integer-feasible (the right-hand side is negative), and \<open>gomory_solve\<close> returns no
  4-tuple: its second pivot divides by zero.
\<close>

theorem gomory_solve_counterexample:
  "simplex_solve 2 1 [''1x_1 <= -3''] (''minimize'', ''1x_1'')
     = Some (Inr (0, [(1, 0)], [(Initial_Simplex_method, [[- 1, 0, 0], [1, 1, - 3]])],
                  [(Initial_Simplex_method, [0, 1])]))
   \<and> check_integer_condition [[- 1, 0, 0], [1, 1, - 3]] = Inr False
   \<and> gomory_solve 2 1 [''1x_1 <= -3''] (''minimize'', ''1x_1'') = Some (Inl ZeroDivisionError)"
  by code_simp

end
